theory Spec2Isabelle
  imports Main "HOL-Library.Word" "HOL-Library.Sublist" "HOL-Library.Multiset" "HOL-Library.AList"
begin

section \<open>Go library functions used by mistral-ocr\<close>

text \<open>
  Go strings are byte sequences: \<open>string\<close> (a \<open>char list\<close>) models them byte for byte.
  The functions of the Go standard library that the program calls are modelled here from
  their Go sources where they are short loops over bytes; the behaviour of the rest
  (JSON decoding, Unicode case mapping, the templates of regular expressions, float
  formatting, the functions of path/filepath, the string of a resty response, the order of
  a range over a map) is taken as a parameter, collected in the record \<open>golib\<close>.
\<close>

subsection \<open>package strings\<close>

definition HasPrefix :: "string \<Rightarrow> string \<Rightarrow> bool" where
  "HasPrefix s p = prefix p s"

definition HasSuffix :: "string \<Rightarrow> string \<Rightarrow> bool" where
  "HasSuffix s x = suffix x s"

definition TrimSuffix :: "string \<Rightarrow> string \<Rightarrow> string" where
  "TrimSuffix s x = (if HasSuffix s x then take (length s - length x) s else s)"

definition isASCII :: "string \<Rightarrow> bool" where
  "isASCII s = list_all (\<lambda>c. (of_char c :: nat) < 128) s"

definition lowerByte :: "char \<Rightarrow> char" where
  "lowerByte c =
     (if (of_char (CHR ''A'') :: nat) \<le> of_char c \<and> (of_char c :: nat) \<le> of_char (CHR ''Z'')
      then char_of ((of_char c :: nat) + 32) else c)"

subsection \<open>fmt: the verbs \<open>%d\<close> and \<open>%v\<close>\<close>

definition digit :: "nat \<Rightarrow> char" where
  "digit n = char_of (of_char (CHR ''0'') + n)"

function decimal :: "nat \<Rightarrow> string" where
  "decimal n = (if n < 10 then [digit n] else decimal (n div 10) @ [digit (n mod 10)])"
  by pat_completeness auto
termination
  by (relation "measure id") auto

declare decimal.simps [simp del]

definition fmt_d :: "int \<Rightarrow> string" where
  "fmt_d i = (if i < 0 then CHR ''-'' # decimal (nat (- i)) else decimal (nat i))"

text \<open>\<open>%v\<close> of an error value: its message, or \<open><nil>\<close> for the nil error.\<close>

definition fmt_v :: "string option \<Rightarrow> string" where
  "fmt_v e = (case e of None \<Rightarrow> ''<nil>'' | Some m \<Rightarrow> m)"

subsection \<open>The OCR response (cmd/convert.go) and an HTTP response\<close>

text \<open>
  The structs of \<open>OCRResponse\<close>, the anonymous ones under the names \<open>Page\<close>,
  \<open>Page_Image\<close>, \<open>Page_Dimensions\<close> and \<open>Metadata\<close>. A Go \<open>int\<close> is a 64-bit signed
  integer on the platforms the program is built for: a \<open>64 word\<close>, read with \<open>sint\<close>.
  Of a resty response the program reads the status code, the status line and the body.
\<close>

record OCRResponse_Image =
  ID :: string
  ImageBase64 :: string

record Page_Image =
  img_ID :: string
  TopLeftX :: "64 word"
  TopLeftY :: "64 word"
  BottomRightX :: "64 word"
  BottomRightY :: "64 word"
  img_ImageBase64 :: string

record Page_Dimensions =
  DPI :: "64 word"
  Height :: "64 word"
  Width :: "64 word"

record Page =
  Index :: "64 word"
  Markdown :: string
  Image :: string
  Images :: "Page_Image list"
  Dimensions :: Page_Dimensions

record Metadata =
  Title :: string
  Author :: string
  CreationDate :: string
  PageCount :: "64 word"

record OCRResponse =
  Pages :: "Page list"
  Metadata :: Metadata

record response =
  StatusCode :: int
  Status :: string
  Body :: string

subsection \<open>Library behaviour taken as a parameter\<close>

text \<open>
  \<open>map_range\<close> is the order in which a \<open>range\<close> loop visits the entries of a map;
  \<open>json_Unmarshal_ID\<close>, \<open>json_Unmarshal_URL\<close> and \<open>json_Unmarshal_OCR\<close> are
  \<open>json.Unmarshal\<close> into the three targets the program decodes to, with the error message
  on the left; \<open>json_Unmarshal_keys\<close> gives the keys of a JSON object, in the order a \<open>range\<close>
  loop visits them, or nothing when the text is not an object; \<open>fmt_2f_MB\<close> formats a number
  of bytes as megabytes with the verb \<open>%.2f\<close>.
\<close>

record golib =
  unicode_ToLower :: "string \<Rightarrow> string"
  regexp_expand :: "string \<Rightarrow> string \<Rightarrow> string"
  map_range :: "(string \<times> string) list \<Rightarrow> (string \<times> string) list"
  json_Unmarshal_ID :: "string \<Rightarrow> string + string"
  json_Unmarshal_URL :: "string \<Rightarrow> string + string"
  json_Unmarshal_OCR :: "string \<Rightarrow> string + OCRResponse"
  json_Unmarshal_keys :: "string \<Rightarrow> string list option"
  json_Valid :: "string \<Rightarrow> bool"
  json_Indent :: "string \<Rightarrow> string + string"
  filepath_Join :: "string \<Rightarrow> string \<Rightarrow> string"
  filepath_Dir :: "string \<Rightarrow> string"
  filepath_Base :: "string \<Rightarrow> string"
  filepath_Ext :: "string \<Rightarrow> string"
  resty_String :: "response \<Rightarrow> string"
  fmt_2f_MB :: "int \<Rightarrow> string"

text \<open>
  \<open>strings.ToLower\<close> has a fast path for strings of ASCII bytes, where it maps
  \<open>A\<close>..\<open>Z\<close> to \<open>a\<close>..\<open>z\<close>; any other string goes through
  \<open>strings.Map(unicode.ToLower, s)\<close>, which is the parameter \<open>unicode_ToLower\<close>.
\<close>

definition ToLower :: "golib \<Rightarrow> string \<Rightarrow> string" where
  "ToLower L s = (if isASCII s then map lowerByte s else unicode_ToLower L s)"

section \<open>The world outside the program\<close>

text \<open>
  What the operating system and the network answer is an input (\<open>env\<close>); what the
  program does to them is logged, in order, as a list of events: a request sent, a sleep
  (in seconds), a text printed to standard output, a directory created, a file written, a
  temporary file created, a file removed. \<open>os.Stat\<close> answers with a size or with an
  error, for which \<open>os.IsNotExist\<close> holds or not; the other operations answer with an
  error message or without one, and a directory creation or a write that fails leaves no
  event. The server's answer to a request is indexed by the number of requests sent before
  it; a request that fails in transport is answered by \<open>Failed\<close> with the error's message.
\<close>

datatype reply = Failed string | Answered response

datatype stat_result = FileInfo int | StatError string bool

record ocr_body =
  model :: string
  document :: "string \<rightharpoonup> string"
  include_image_base64 :: bool

datatype payload =
    NoBody
  | FileForm string "(string \<times> string) list"
  | JSONBody ocr_body

record request =
  req_method :: string
  req_path :: string
  req_headers :: "(string \<times> string) list"
  req_body :: payload

datatype event =
    Sent request
  | Slept nat
  | Printed string
  | MadeDir string
  | Wrote string string
  | CreatedTemp string
  | Removed string

record env =
  getenv_MISTRAL_API_KEY :: string
  os_Stat :: "string \<Rightarrow> stat_result"
  os_ReadFile :: "string \<Rightarrow> string + string"
  os_MkdirAll :: "string \<Rightarrow> string option"
  os_WriteFile :: "string \<Rightarrow> string \<Rightarrow> string option"
  os_CreateTemp :: "string + string"
  net :: "nat \<Rightarrow> reply"

definition requests :: "event list \<Rightarrow> request list" where
  "requests w = concat (map (\<lambda>e. case e of Sent rq \<Rightarrow> [rq] | _ \<Rightarrow> []) w)"

definition send :: "env \<Rightarrow> request \<Rightarrow> event list \<Rightarrow> reply \<times> event list" where
  "send E rq w = (net E (length (requests w)), w @ [Sent rq])"

section \<open>pkg/mistral/client.go\<close>

definition BaseURL :: string where
  "BaseURL = ''https://api.mistral.ai/v1''"

definition MaxFileSize :: int where
  "MaxFileSize = 52 * 1024 * 1024"

record Client =
  APIKey :: string

definition NewClient :: "env \<Rightarrow> string \<Rightarrow> Client option" where
  "NewClient E apiKey =
     (if apiKey = '''' then
        (if getenv_MISTRAL_API_KEY E = '''' then None
         else Some \<lparr>APIKey = getenv_MISTRAL_API_KEY E\<rparr>)
      else Some \<lparr>APIKey = apiKey\<rparr>)"

text \<open>The three requests the client builds with resty's request builder.\<close>

definition fileURLRequest :: "Client \<Rightarrow> string \<Rightarrow> request" where
  "fileURLRequest c fileID =
     \<lparr>req_method = ''GET'',
      req_path = ''/files/'' @ fileID @ ''/url?expiry=24'',
      req_headers = [(''Authorization'', ''Bearer '' @ APIKey c),
                     (''Accept'', ''application/json'')],
      req_body = NoBody\<rparr>"

definition uploadRequest :: "Client \<Rightarrow> string \<Rightarrow> request" where
  "uploadRequest c filePath =
     \<lparr>req_method = ''POST'', req_path = ''/files'',
      req_headers = [(''Authorization'', ''Bearer '' @ APIKey c)],
      req_body = FileForm filePath [(''purpose'', ''ocr'')]\<rparr>"

definition ocrRequest :: "Client \<Rightarrow> (string \<rightharpoonup> string) \<Rightarrow> bool \<Rightarrow> request" where
  "ocrRequest c documentMap includeImageBase64 =
     \<lparr>req_method = ''POST'', req_path = ''/ocr'',
      req_headers = [(''Content-Type'', ''application/json''),
                     (''Authorization'', ''Bearer '' @ APIKey c),
                     (''Accept'', ''application/json'')],
      req_body = JSONBody \<lparr>model = ''mistral-ocr-latest'', document = documentMap,
                            include_image_base64 = includeImageBase64\<rparr>\<rparr>"

definition GetFileURL :: "golib \<Rightarrow> env \<Rightarrow> Client \<Rightarrow> string \<Rightarrow> event list
    \<Rightarrow> (string + string) \<times> event list" where
  "GetFileURL L E c fileID w =
     (case send E (fileURLRequest c fileID) w of
        (r, w1) \<Rightarrow>
          (case r of
             Failed err \<Rightarrow> (Inl (''error fetching file URL: '' @ err), w1)
           | Answered resp \<Rightarrow>
               if StatusCode resp \<noteq> 200 then
                 (Inl (''API returned error status: '' @ fmt_d (StatusCode resp) @ '' - ''
                        @ resty_String L resp), w1)
               else
                 (case json_Unmarshal_URL L (Body resp) of
                    Inl err \<Rightarrow> (Inl (''error parsing URL response: '' @ err), w1)
                  | Inr URL \<Rightarrow>
                      if URL = '''' then (Inl ''API response did not contain a URL'', w1)
                      else (Inr URL, w1))))"

text \<open>
  One pass through the body of a retry loop either leaves the function (\<open>Return\<close>) or
  records \<open>lastErr\<close>, sleeps for a number of seconds and goes on to the next attempt
  (\<open>Continue\<close>).
\<close>

datatype 'a step = is_Continue: Continue (lastErr_of: string) (delay_of: nat) | Return "string + 'a"

definition uploadAttempt :: "golib \<Rightarrow> reply \<Rightarrow> string step" where
  "uploadAttempt L r =
     (case r of
        Failed err \<Rightarrow> Continue (''error making upload request: '' @ err) 3
      | Answered resp \<Rightarrow>
          if StatusCode resp \<noteq> 200 then
            (let errMsg = resty_String L resp;
                 lastErr = ''API returned error status: '' @ fmt_d (StatusCode resp) @ '' - '' @ errMsg
             in if StatusCode resp \<ge> 500 \<or> StatusCode resp = 429 then Continue lastErr 3
                else Return (Inl lastErr))
          else if length (Body resp) = 0 then Continue ''received empty response from API'' 3
          else
            (case json_Unmarshal_ID L (Body resp) of
               Inl err \<Rightarrow> Continue (''error parsing response: '' @ err) 3
             | Inr fileID \<Rightarrow>
                 if fileID = '''' then Continue ''received response without file ID'' 3
                 else Return (Inr fileID)))"

function uploadLoop :: "golib \<Rightarrow> env \<Rightarrow> request \<Rightarrow> nat \<Rightarrow> nat \<Rightarrow> string option \<Rightarrow> event list
    \<Rightarrow> (string + string) \<times> event list" where
  "uploadLoop L E rq maxRetries attempt lastErr w =
     (if attempt \<le> maxRetries then
        (case uploadAttempt L (fst (send E rq w)) of
           Return res \<Rightarrow> (res, snd (send E rq w))
         | Continue e d \<Rightarrow>
             uploadLoop L E rq maxRetries (attempt + 1) (Some e) (snd (send E rq w) @ [Slept d]))
      else
        (Inl (''failed to upload file after '' @ fmt_d (int maxRetries) @ '' attempts: ''
               @ fmt_v lastErr), w))"
  by pat_completeness auto
termination
  by (relation "measure (\<lambda>(L, E, rq, maxRetries, attempt, lastErr, w). Suc maxRetries - attempt)") auto

declare uploadLoop.simps [simp del]

definition UploadFile :: "golib \<Rightarrow> env \<Rightarrow> Client \<Rightarrow> string \<Rightarrow> event list
    \<Rightarrow> (string + string) \<times> event list" where
  "UploadFile L E c filePath w =
     (case os_Stat E filePath of
        StatError err notExist \<Rightarrow> (Inl (''error checking file size: '' @ err), w)
      | FileInfo sz \<Rightarrow>
          if sz > MaxFileSize then
            (Inl (''file is too large ('' @ fmt_2f_MB L sz @ '' MB). Maximum allowed size is ''
                   @ fmt_2f_MB L MaxFileSize @ '' MB''), w)
          else
            uploadLoop L E (uploadRequest c filePath) 3 1 None w)"

definition ocrAttempt :: "golib \<Rightarrow> nat \<Rightarrow> reply \<Rightarrow> string step" where
  "ocrAttempt L attempt r =
     (case r of
        Failed err \<Rightarrow> Continue err 10
      | Answered resp \<Rightarrow>
          if StatusCode resp \<noteq> 200 then
            (let errMsg = (if length (Body resp) > 0 then Body resp else Status resp)
             in if StatusCode resp \<ge> 500 \<or> StatusCode resp = 429 then
                  Continue (''API returned error status: '' @ fmt_d (StatusCode resp) @ '' - '' @ errMsg) 10
                else
                  Return (Inl (''API returned error status: '' @ fmt_d (StatusCode resp) @ '' - '' @ errMsg)))
          else if length (Body resp) = 0 then
            Continue ''received empty response from API'' (10 * attempt)
          else if \<not> json_Valid L (Body resp) then
            Continue ''received invalid JSON response from API'' 10
          else Return (Inr (Body resp)))"

function ocrLoop :: "golib \<Rightarrow> env \<Rightarrow> request \<Rightarrow> nat \<Rightarrow> nat \<Rightarrow> string option \<Rightarrow> event list
    \<Rightarrow> (string + string) \<times> event list" where
  "ocrLoop L E rq maxRetries attempt lastErr w =
     (if attempt \<le> maxRetries then
        (case ocrAttempt L attempt (fst (send E rq w)) of
           Return res \<Rightarrow> (res, snd (send E rq w))
         | Continue e d \<Rightarrow>
             ocrLoop L E rq maxRetries (attempt + 1) (Some e) (snd (send E rq w) @ [Slept d]))
      else
        (Inl (''failed after '' @ fmt_d (int maxRetries) @ '' attempts. Last error: ''
               @ fmt_v lastErr), w))"
  by pat_completeness auto
termination
  by (relation "measure (\<lambda>(L, E, rq, maxRetries, attempt, lastErr, w). Suc maxRetries - attempt)") auto

declare ocrLoop.simps [simp del]

definition ProcessOCR :: "golib \<Rightarrow> env \<Rightarrow> Client \<Rightarrow> string \<Rightarrow> string \<Rightarrow> bool \<Rightarrow> event list
    \<Rightarrow> (string + string) \<times> event list" where
  "ProcessOCR L E c docType docSource includeImageBase64 w =
     (let documentMap = [''type'' \<mapsto> docType];
          run = (\<lambda>documentMap. ocrLoop L E (ocrRequest c documentMap includeImageBase64) 5 1 None w)
      in if docType = ''document_url'' then run (documentMap(''document_url'' \<mapsto> docSource))
         else if docType = ''image_url'' then run (documentMap(''image_url'' \<mapsto> docSource))
         else (Inl (''unsupported document type: '' @ docType), w))"

section \<open>cmd: flags, root.go and process.go\<close>

text \<open>
  The package variables that the flags are bound to. Cobra checks \<open>ExactArgs(1)\<close>, then
  runs a command's \<open>PreRun\<close> and then its \<open>Run\<close>, so a command is modelled on its one
  argument. \<open>os.Exit\<close> ends the program where it is called: a function either returns or
  exits with a code.
\<close>

record flags =
  apiKey :: string
  jsonOutputFile :: string
  includeImageBase64 :: bool
  markdownDir :: string
  markdownFile :: string
  includeImages :: bool
  includePageBreaks :: bool
  titleFromFilename :: bool
  singleFile :: bool

datatype 'a outcome = Returned 'a | Exit int

definition mkdirAll :: "env \<Rightarrow> string \<Rightarrow> event list \<Rightarrow> string option \<times> event list" where
  "mkdirAll E path w =
     (case os_MkdirAll E path of Some err \<Rightarrow> (Some err, w) | None \<Rightarrow> (None, w @ [MadeDir path]))"

definition writeFile :: "env \<Rightarrow> string \<Rightarrow> string \<Rightarrow> event list \<Rightarrow> string option \<times> event list" where
  "writeFile E path content w =
     (case os_WriteFile E path content of
        Some err \<Rightarrow> (Some err, w)
      | None \<Rightarrow> (None, w @ [Wrote path content]))"

definition missingKeyMessage :: string where
  "missingKeyMessage =
     ''Error: MISTRAL_API_KEY environment variable is not set and no --api-key flag was provided\<newline>''"

definition getAPIKey :: "env \<Rightarrow> flags \<Rightarrow> event list \<Rightarrow> string outcome \<times> flags \<times> event list" where
  "getAPIKey E G w =
     (if apiKey G \<noteq> '''' then (Returned (apiKey G), G, w)
      else
        (let G1 = G\<lparr>apiKey := getenv_MISTRAL_API_KEY E\<rparr>
         in if apiKey G1 = '''' then (Exit 1, G1, w @ [Printed missingKeyMessage])
            else (Returned (apiKey G1), G1, w)))"

definition handleOutput :: "golib \<Rightarrow> env \<Rightarrow> flags \<Rightarrow> string \<Rightarrow> event list
    \<Rightarrow> unit outcome \<times> event list" where
  "handleOutput L E G data w =
     (case json_Indent L data of
        Inl err \<Rightarrow> (Exit 1, w @ [Printed (''Error formatting JSON: '' @ err @ ''\<newline>'')])
      | Inr prettyJSON \<Rightarrow>
          if jsonOutputFile G \<noteq> '''' then
            (let dir = filepath_Dir L (jsonOutputFile G)
             in case (if dir \<noteq> ''.'' then mkdirAll E dir w else (None, w)) of
                  (Some err, w1) \<Rightarrow>
                    (Exit 1, w1 @ [Printed (''Error creating output directory: '' @ err @ ''\<newline>'')])
                | (None, w1) \<Rightarrow>
                    (case writeFile E (jsonOutputFile G) prettyJSON w1 of
                       (Some err, w2) \<Rightarrow>
                         (Exit 1, w2 @ [Printed (''Error writing output file: '' @ err @ ''\<newline>'')])
                     | (None, w2) \<Rightarrow>
                         (Returned (),
                          w2 @ [Printed (''OCR results saved to '' @ jsonOutputFile G @ ''\<newline>'')])))
          else (Returned (), w @ [Printed (prettyJSON @ ''\<newline>'')]))"




section \<open>cmd/convert.go\<close>

definition convertCmd_PreRun :: "flags \<Rightarrow> flags" where
  "convertCmd_PreRun G = (if markdownFile G \<noteq> '''' then G\<lparr>singleFile := True\<rparr> else G)"

subsection \<open>The regular expression of replaceImageReferences\<close>

text \<open>
  The pattern is built from \<open>regexp.QuoteMeta(id)\<close> between escaped brackets, so it has no
  operator and no group: it matches the byte string \<open>![id](id)\<close> and nothing else, and the
  model keeps that string in place of the pattern. \<open>ReplaceAllString\<close> replaces the
  leftmost matches, none overlapping another, by the expansion of the replacement template.
  A template without \<open>$\<close> expands to itself; what Go makes of a \<open>$\<close> is the parameter
  \<open>regexp_expand\<close>. The pattern is never empty; for an empty one the function below leaves
  the text as it is.
\<close>

fun ReplaceAllLiteral :: "string \<Rightarrow> string \<Rightarrow> string \<Rightarrow> string" where
  "ReplaceAllLiteral lit repl [] = []"
| "ReplaceAllLiteral lit repl (c # cs) =
     (if lit \<noteq> [] \<and> prefix lit (c # cs)
      then repl @ ReplaceAllLiteral lit repl (drop (length lit) (c # cs))
      else c # ReplaceAllLiteral lit repl cs)"

definition expand :: "golib \<Rightarrow> string \<Rightarrow> string \<Rightarrow> string" where
  "expand L template matched =
     (if CHR ''$'' \<in> set template then regexp_expand L template matched else template)"

definition ReplaceAllString :: "golib \<Rightarrow> string \<Rightarrow> string \<Rightarrow> string \<Rightarrow> string" where
  "ReplaceAllString L lit src repl = ReplaceAllLiteral lit (expand L repl lit) src"

subsection \<open>replaceImageReferences\<close>

text \<open>
  \<open>imageMap\<close> is a Go map: an association list with one entry per key. The first loop
  fills it (\<open>buildImageMap\<close>); the second ranges over it in the order the runtime picks
  (\<open>map_range\<close>).
\<close>

definition buildImageMap :: "OCRResponse_Image list \<Rightarrow> (string \<times> string) list" where
  "buildImageMap images =
     fold (\<lambda>img imageMap.
             if ImageBase64 img \<noteq> '''' then
               (let imgData = ImageBase64 img;
                    imgData = (if \<not> HasPrefix imgData ''data:''
                               then ''data:image/jpeg;base64,'' @ imgData else imgData)
                in AList.update (ID img) imgData imageMap)
             else imageMap)
          images []"

definition replaceImageReferences :: "golib \<Rightarrow> flags \<Rightarrow> string \<Rightarrow> OCRResponse_Image list \<Rightarrow> string" where
  "replaceImageReferences L G content images =
     (if \<not> includeImages G \<or> length images = 0 then content
      else
        (let imageMap = buildImageMap images
         in fold (\<lambda>(imageID, base64Data) content.
                    ReplaceAllString L (''!['' @ imageID @ '']('' @ imageID @ '')'') content
                      (''!['' @ imageID @ '']('' @ base64Data @ '')''))
                 (map_range L imageMap) content))"

subsection \<open>convertJSONToMarkdown\<close>

definition pageImages :: "Page \<Rightarrow> OCRResponse_Image list" where
  "pageImages page = map (\<lambda>img. \<lparr>ID = img_ID img, ImageBase64 = img_ImageBase64 img\<rparr>) (Images page)"

text \<open>
  The loop of the single-file branch over the pages, with the loop index \<open>i\<close>, the number
  \<open>n\<close> of pages of the response and the string builder \<open>combined\<close>.
\<close>

fun singleFilePages :: "golib \<Rightarrow> flags \<Rightarrow> nat \<Rightarrow> nat \<Rightarrow> Page list \<Rightarrow> string \<Rightarrow> string" where
  "singleFilePages L G n i [] combined = combined"
| "singleFilePages L G n i (page # pages) combined =
     (let combined = combined @ ''## Page '' @ fmt_d (sint (Index page + 1)) @ ''\<newline>\<newline>'';
          pageContent = Markdown page;
          pageContent = (if includeImages G
                         then replaceImageReferences L G pageContent (pageImages page)
                         else pageContent);
          combined = combined @ pageContent;
          combined = combined @ ''\<newline>\<newline>'';
          combined = (if includePageBreaks G \<and> int i < int n - 1
                      then combined @ ''\<newline>\<newline>---\<newline>\<newline>'' else combined)
      in singleFilePages L G n (i + 1) pages combined)"

definition singleFileDocument :: "golib \<Rightarrow> flags \<Rightarrow> string \<Rightarrow> OCRResponse \<Rightarrow> string" where
  "singleFileDocument L G jsonFile ocrResponse =
     (let title = ''Document'';
          title = (if Title (Metadata ocrResponse) \<noteq> '''' then Title (Metadata ocrResponse)
                   else if titleFromFilename G then
                     (let base = filepath_Base L jsonFile in TrimSuffix base (filepath_Ext L base))
                   else title);
          combined = ''# '' @ title @ ''\<newline>\<newline>'';
          combined =
            (if Author (Metadata ocrResponse) \<noteq> '''' \<or> CreationDate (Metadata ocrResponse) \<noteq> '''' then
               (let combined = combined @ ''## Document Metadata\<newline>\<newline>'';
                    combined = (if Author (Metadata ocrResponse) \<noteq> ''''
                                then combined @ ''**Author:** '' @ Author (Metadata ocrResponse)
                                       @ ''\<newline>\<newline>''
                                else combined);
                    combined = (if CreationDate (Metadata ocrResponse) \<noteq> ''''
                                then combined @ ''**Creation Date:** ''
                                       @ CreationDate (Metadata ocrResponse) @ ''\<newline>\<newline>''
                                else combined)
                in if sint (PageCount (Metadata ocrResponse)) > 0
                   then combined @ ''**Page Count:** '' @ fmt_d (sint (PageCount (Metadata ocrResponse)))
                          @ ''\<newline>\<newline>''
                   else combined)
             else combined)
      in singleFilePages L G (length (Pages ocrResponse)) 0 (Pages ocrResponse) combined)"

text \<open>
  The multi-file branch (convert.go, lines 231 to 260) is a loop: one \<open>os.WriteFile\<close> per
  page, leaving at the first failure.
\<close>

fun writePages :: "golib \<Rightarrow> env \<Rightarrow> flags \<Rightarrow> Page list \<Rightarrow> event list \<Rightarrow> unit outcome \<times> event list" where
  "writePages L E G [] w = (Returned (), w)"
| "writePages L E G (page # pages) w =
     (let filename = fmt_d (sint (Index page)) @ ''.md'';
          outputFilePath = filepath_Join L (markdownDir G) filename;
          markdownContent = Markdown page;
          markdownContent = (if includeImages G
                             then replaceImageReferences L G markdownContent (pageImages page)
                             else markdownContent)
      in case writeFile E outputFilePath markdownContent w of
           (Some err, w1) \<Rightarrow>
             (Exit 1, w1 @ [Printed (''Error writing markdown file '' @ outputFilePath @ '': '' @ err
                                     @ ''\<newline>'')])
         | (None, w1) \<Rightarrow>
             writePages L E G pages
               (w1 @ [Printed (''Created markdown file: '' @ outputFilePath @ ''\<newline>'')]))"

text \<open>
  The single-file branch (convert.go, lines 149 to 230): the document is built, the
  directory of a custom file name is created, and the document is written.
\<close>

definition singleFileBranch :: "golib \<Rightarrow> env \<Rightarrow> flags \<Rightarrow> string \<Rightarrow> OCRResponse \<Rightarrow> event list
    \<Rightarrow> unit outcome \<times> event list" where
  "singleFileBranch L E G jsonFile ocrResponse w =
     (let combined = singleFileDocument L G jsonFile ocrResponse;
          dir = filepath_Dir L (markdownFile G)
      in case (if markdownFile G \<noteq> '''' \<and> dir \<noteq> ''.''
               then mkdirAll E (filepath_Join L (markdownDir G) dir) w
               else (None, w)) of
           (Some err, w1) \<Rightarrow>
             (Exit 1, w1 @ [Printed (''Error creating output subdirectory: '' @ err @ ''\<newline>'')])
         | (None, w1) \<Rightarrow>
             (let filename = (if markdownFile G \<noteq> '''' then markdownFile G else ''document.md'');
                  outputFilePath = filepath_Join L (markdownDir G) filename
              in case writeFile E outputFilePath combined w1 of
                   (Some err, w2) \<Rightarrow>
                     (Exit 1, w2 @ [Printed (''Error writing markdown file: '' @ err @ ''\<newline>'')])
                 | (None, w2) \<Rightarrow>
                     (Returned (),
                      w2 @ [Printed (''Created single markdown file: '' @ outputFilePath
                                     @ ''\<newline>'')])))"

definition convertJSONToMarkdown :: "golib \<Rightarrow> env \<Rightarrow> flags \<Rightarrow> string \<Rightarrow> event list
    \<Rightarrow> unit outcome \<times> event list" where
  "convertJSONToMarkdown L E G jsonFile w =
     (case os_ReadFile E jsonFile of
        Inl err \<Rightarrow> (Exit 1, w @ [Printed (''Error reading JSON file: '' @ err @ ''\<newline>'')])
      | Inr data \<Rightarrow>
          (case json_Unmarshal_OCR L data of
             Inl err \<Rightarrow>
               (Exit 1,
                w @ [Printed (''Error parsing JSON: '' @ err @ ''\<newline>'')]
                  @ (case json_Unmarshal_keys L data of
                       None \<Rightarrow> []
                     | Some keys \<Rightarrow>
                         Printed ''JSON top-level keys:\<newline>''
                           # map (\<lambda>k. Printed (''- '' @ k @ ''\<newline>'')) keys))
           | Inr ocrResponse \<Rightarrow>
               (case mkdirAll E (markdownDir G) w of
                  (Some err, w1) \<Rightarrow>
                    (Exit 1, w1 @ [Printed (''Error creating output directory: '' @ err @ ''\<newline>'')])
                | (None, w1) \<Rightarrow>
                    (case (if singleFile G then singleFileBranch L E G jsonFile ocrResponse w1
                           else writePages L E G (Pages ocrResponse) w1) of
                       (Exit code, w2) \<Rightarrow> (Exit code, w2)
                     | (Returned u, w2) \<Rightarrow>
                         (Returned (),
                          w2 @ [Printed (''Successfully converted '' @ jsonFile @ '' to markdown files in ''
                                         @ markdownDir G @ ''/\<newline>''),
                                Printed (''Total pages: '' @ fmt_d (int (length (Pages ocrResponse)))
                                         @ ''\<newline>'')])))))"

text \<open>The \<open>convert\<close> command.\<close>

definition convertCmd :: "golib \<Rightarrow> env \<Rightarrow> flags \<Rightarrow> string \<Rightarrow> event list \<Rightarrow> unit outcome \<times> event list" where
  "convertCmd L E G jsonFile w = convertJSONToMarkdown L E (convertCmd_PreRun G) jsonFile w"

section \<open>cmd/process_markdown.go\<close>

definition processMarkdownCmd_PreRun :: "flags \<Rightarrow> flags" where
  "processMarkdownCmd_PreRun G =
     (let G = (if includeImages G then G\<lparr>includeImageBase64 := True\<rparr> else G)
      in if markdownFile G \<noteq> '''' then G\<lparr>singleFile := True\<rparr> else G)"

definition fmt_bool :: "bool \<Rightarrow> string" where
  "fmt_bool b = (if b then ''true'' else ''false'')"

text \<open>
  Step 1 of \<open>processAndConvertToMarkdown\<close> (process_markdown.go, lines 80 to 142), which
  obtains the OCR response for a URL or for a local file, is \<open>processDocument\<close>. The
  deferred \<open>os.Remove\<close> of the temporary file runs when the function returns, not when the
  program leaves through \<open>os.Exit\<close>.
\<close>

definition processDocument :: "golib \<Rightarrow> env \<Rightarrow> flags \<Rightarrow> Client \<Rightarrow> string \<Rightarrow> event list
    \<Rightarrow> string outcome \<times> event list" where
  "processDocument L E G client fileOrURL w =
     (if HasPrefix fileOrURL ''http://'' \<or> HasPrefix fileOrURL ''https://'' then
        (let docType =
               (if HasSuffix (ToLower L fileOrURL) ''.jpg'' \<or>
                   HasSuffix (ToLower L fileOrURL) ''.jpeg'' \<or>
                   HasSuffix (ToLower L fileOrURL) ''.png'' \<or>
                   HasSuffix (ToLower L fileOrURL) ''.webp'' \<or>
                   HasSuffix (ToLower L fileOrURL) ''.gif''
                then ''image_url'' else ''document_url'')
         in case ProcessOCR L E client docType fileOrURL (includeImageBase64 G)
                   (w @ [Printed (''Processing URL: '' @ fileOrURL @ ''\<newline>'')]) of
              (Inl err, w1) \<Rightarrow>
                (Exit 1, w1 @ [Printed (''Error processing document: '' @ err @ ''\<newline>'')])
            | (Inr respData, w1) \<Rightarrow> (Returned respData, w1))
      else if (case os_Stat E fileOrURL of
                 StatError err notExist \<Rightarrow> notExist
               | FileInfo sz \<Rightarrow> False) then
        (Exit 1, w @ [Printed (''Error: file '' @ [CHR 0x27] @ fileOrURL @ [CHR 0x27]
                               @ '' does not exist\<newline>'')])
      else
        (case UploadFile L E client fileOrURL
                (w @ [Printed (''Processing local file: '' @ fileOrURL @ ''\<newline>'')]) of
           (Inl err, w1) \<Rightarrow>
             (Exit 1, w1 @ [Printed (''Error uploading file: '' @ err @ ''\<newline>'')])
         | (Inr fileID, w1) \<Rightarrow>
             (case GetFileURL L E client fileID
                     (w1 @ [Printed (''File uploaded successfully with ID: '' @ fileID
                                     @ ''\<newline>'')]) of
                (Inl err, w2) \<Rightarrow>
                  (Exit 1, w2 @ [Printed (''Error getting signed file URL: '' @ err @ ''\<newline>'')])
              | (Inr fileURL, w2) \<Rightarrow>
                  (let lowerFilePath = ToLower L fileOrURL;
                       docType =
                         (if HasSuffix lowerFilePath ''.jpg'' \<or>
                             HasSuffix lowerFilePath ''.jpeg'' \<or>
                             HasSuffix lowerFilePath ''.png'' \<or>
                             HasSuffix lowerFilePath ''.webp'' \<or>
                             HasSuffix lowerFilePath ''.gif''
                          then ''image_url'' else ''document_url'')
                   in case ProcessOCR L E client docType fileURL (includeImageBase64 G)
                             (w2 @ [Printed (''Processing with signed file URL (type: ''
                                             @ docType @ '')\<newline>''),
                                    Printed (''File URL: '' @ fileURL @ ''\<newline>''),
                                    Printed (''Include Image Base64: ''
                                             @ fmt_bool (includeImageBase64 G) @ ''\<newline>'')]) of
                        (Inl err, w3) \<Rightarrow>
                          (Exit 1, w3 @ [Printed (''Error processing document: '' @ err
                                                  @ ''\<newline>'')])
                      | (Inr respData, w3) \<Rightarrow> (Returned respData, w3)))))"

definition processAndConvertToMarkdown :: "golib \<Rightarrow> env \<Rightarrow> flags \<Rightarrow> string \<Rightarrow> event list
    \<Rightarrow> unit outcome \<times> event list" where
  "processAndConvertToMarkdown L E G fileOrURL w =
     (case (if jsonOutputFile G = '''' then
              (case os_CreateTemp E of
                 Inl err \<Rightarrow> (Inl err, w)
               | Inr name \<Rightarrow> (Inr name, w @ [CreatedTemp name]))
            else (Inr (jsonOutputFile G), w)) of
        (Inl err, w0) \<Rightarrow>
          (Exit 1, w0 @ [Printed (''Error creating temporary file: '' @ err @ ''\<newline>'')])
      | (Inr jsonOutputPath, w0) \<Rightarrow>
          (case getAPIKey E G w0 of
             (Exit code, G1, w1) \<Rightarrow> (Exit code, w1)
           | (Returned key, G1, w1) \<Rightarrow>
               (case NewClient E key of
                  None \<Rightarrow> (Exit 1, w1 @ [Printed missingKeyMessage])
                | Some client \<Rightarrow>
                    (case processDocument L E G1 client fileOrURL w1 of
                       (Exit code, w2) \<Rightarrow> (Exit code, w2)
                     | (Returned respData, w2) \<Rightarrow>
                         if length respData = 0 then
                           (case mkdirAll E (markdownDir G1)
                                   (w2 @ [Printed ''Error: Received empty response from Mistral API after all retries\<newline>'']) of
                              (Some err, w3) \<Rightarrow>
                                (Exit 1, w3 @ [Printed (''Error creating output directory: '' @ err
                                                        @ ''\<newline>'')])
                            | (None, w3) \<Rightarrow> (Exit 1, w3))
                         else
                           (case writeFile E jsonOutputPath respData w2 of
                              (Some err, w3) \<Rightarrow>
                                (Exit 1, w3 @ [Printed (''Error writing JSON file: '' @ err @ ''\<newline>'')])
                            | (None, w3) \<Rightarrow>
                                (case convertJSONToMarkdown L E G1 jsonOutputPath
                                        (w3 @ (if jsonOutputFile G1 \<noteq> ''''
                                               then [Printed (''OCR results saved to '' @ jsonOutputPath
                                                              @ ''\<newline>'')]
                                               else [])
                                            @ [Printed ''Converting JSON to Markdown...\<newline>'']) of
                                   (Exit code, w4) \<Rightarrow> (Exit code, w4)
                                 | (Returned u, w4) \<Rightarrow>
                                     (Returned (),
                                      if jsonOutputFile G = '''' then w4 @ [Removed jsonOutputPath]
                                      else w4)))))))"

text \<open>The \<open>markdown\<close> command.\<close>

definition processMarkdownCmd :: "golib \<Rightarrow> env \<Rightarrow> flags \<Rightarrow> string \<Rightarrow> event list
    \<Rightarrow> unit outcome \<times> event list" where
  "processMarkdownCmd L E G fileOrURL w =
     processAndConvertToMarkdown L E (processMarkdownCmd_PreRun G) fileOrURL w"

section \<open>A concrete library and environment\<close>

text \<open>
  \<open>filepath.Base\<close> and \<open>filepath.Ext\<close> as Go defines them where \<open>/\<close> is the only
  path separator and there are no volume names.
\<close>

definition Base_unix :: "string \<Rightarrow> string" where
  "Base_unix path =
     (if path = '''' then ''.''
      else
        (let stripped = rev (dropWhile (\<lambda>c. c = CHR ''/'') (rev path));
             element = rev (takeWhile (\<lambda>c. c \<noteq> CHR ''/'') (rev stripped))
         in if element = '''' then ''/'' else element))"

fun ext_scan :: "string \<Rightarrow> string \<Rightarrow> string" where
  "ext_scan [] seen = ''''"
| "ext_scan (c # before) seen =
     (if c = CHR ''/'' then ''''
      else if c = CHR ''.'' then c # seen
      else ext_scan before (c # seen))"

definition Ext_unix :: "string \<Rightarrow> string" where
  "Ext_unix path = ext_scan (rev path) []"

text \<open>
  A small instance of the parameters, on which the theorems below are evaluated: a JSON
  decoder that knows a few documents, a file system where every operation succeeds and a
  server that always answers 200.
\<close>

definition L0 :: golib where
  "L0 = \<lparr>unicode_ToLower = (\<lambda>s. s),
         regexp_expand = (\<lambda>template m. template),
         map_range = (\<lambda>m. m),
         json_Unmarshal_ID = (\<lambda>b. if b = ''{id:f1}'' then Inr ''f1''
                                  else if b = ''{}'' then Inr '''' else Inl ''invalid character''),
         json_Unmarshal_URL = (\<lambda>b. if b = ''{url:u1}'' then Inr ''https://signed/u1''
                                   else if b = ''{}'' then Inr '''' else Inl ''invalid character''),
         json_Unmarshal_OCR = (\<lambda>b. Inl ''invalid character''),
         json_Unmarshal_keys = (\<lambda>b. None),
         json_Valid = (\<lambda>b. b = ''{}'' \<or> b = ''{id:f1}'' \<or> b = ''{url:u1}''),
         json_Indent = (\<lambda>b. Inr b),
         filepath_Join = (\<lambda>d f. d @ ''/'' @ f),
         filepath_Dir = (\<lambda>p. ''.''),
         filepath_Base = Base_unix,
         filepath_Ext = Ext_unix,
         resty_String = (\<lambda>resp. Body resp),
         fmt_2f_MB = (\<lambda>n. fmt_d (n div (1024 * 1024)) @ ''.00'')\<rparr>"

definition E0 :: env where
  "E0 = \<lparr>getenv_MISTRAL_API_KEY = ''key'',
         os_Stat = (\<lambda>p. if p = ''big.pdf'' then FileInfo (60 * 1024 * 1024) else FileInfo 2048),
         os_ReadFile = (\<lambda>p. Inr ''{}''),
         os_MkdirAll = (\<lambda>p. None),
         os_WriteFile = (\<lambda>p c. None),
         os_CreateTemp = Inr ''/tmp/mistral-ocr-1.json'',
         net = (\<lambda>n. Answered \<lparr>StatusCode = 200, Status = ''200 OK'', Body = ''{}''\<rparr>)\<rparr>"

section \<open>The replies the retry policy distinguishes\<close>

text \<open>
  The kinds of reply named by the specification of the retry policy: a server error
  (status 500 or more), a rate-limiting response (status 429), an empty body, malformed
  JSON (for an upload, also a document without a file id), and any other status that is
  not 200. A transport error (\<open>Failed\<close>) is transient too.
\<close>

definition server_error :: "response \<Rightarrow> bool" where
  "server_error resp = (StatusCode resp \<ge> 500)"

definition rate_limited :: "response \<Rightarrow> bool" where
  "rate_limited resp = (StatusCode resp = 429)"

definition empty_body :: "response \<Rightarrow> bool" where
  "empty_body resp = (StatusCode resp = 200 \<and> Body resp = [])"

definition malformed_upload_reply :: "golib \<Rightarrow> response \<Rightarrow> bool" where
  "malformed_upload_reply L resp =
     (StatusCode resp = 200 \<and> Body resp \<noteq> [] \<and>
      (case json_Unmarshal_ID L (Body resp) of Inl err \<Rightarrow> True | Inr fileID \<Rightarrow> fileID = []))"

definition malformed_ocr_reply :: "golib \<Rightarrow> response \<Rightarrow> bool" where
  "malformed_ocr_reply L resp =
     (StatusCode resp = 200 \<and> Body resp \<noteq> [] \<and> \<not> json_Valid L (Body resp))"

definition client_error :: "response \<Rightarrow> bool" where
  "client_error resp =
     (StatusCode resp \<noteq> 200 \<and> StatusCode resp < 500 \<and> StatusCode resp \<noteq> 429)"

definition transient_upload :: "golib \<Rightarrow> reply \<Rightarrow> bool" where
  "transient_upload L r =
     (case r of
        Failed err \<Rightarrow> True
      | Answered resp \<Rightarrow>
          server_error resp \<or> rate_limited resp \<or> empty_body resp \<or> malformed_upload_reply L resp)"

definition transient_ocr :: "golib \<Rightarrow> reply \<Rightarrow> bool" where
  "transient_ocr L r =
     (case r of
        Failed err \<Rightarrow> True
      | Answered resp \<Rightarrow>
          server_error resp \<or> rate_limited resp \<or> empty_body resp \<or> malformed_ocr_reply L resp)"

text \<open>
  What was observed of a transient reply, as an error message: the transport error, the
  status with the text of the response, that the body was empty, the decoder's error, or
  that the file id was missing.
\<close>

definition observed_upload_error :: "golib \<Rightarrow> reply \<Rightarrow> string" where
  "observed_upload_error L r =
     (case r of
        Failed err \<Rightarrow> ''error making upload request: '' @ err
      | Answered resp \<Rightarrow>
          if server_error resp \<or> rate_limited resp then
            ''API returned error status: '' @ fmt_d (StatusCode resp) @ '' - '' @ resty_String L resp
          else if empty_body resp then ''received empty response from API''
          else
            (case json_Unmarshal_ID L (Body resp) of
               Inl err \<Rightarrow> ''error parsing response: '' @ err
             | Inr fileID \<Rightarrow> ''received response without file ID''))"

definition observed_ocr_error :: "reply \<Rightarrow> string" where
  "observed_ocr_error r =
     (case r of
        Failed err \<Rightarrow> err
      | Answered resp \<Rightarrow>
          if server_error resp \<or> rate_limited resp then
            ''API returned error status: '' @ fmt_d (StatusCode resp) @ '' - ''
              @ (if Body resp \<noteq> [] then Body resp else Status resp)
          else if empty_body resp then ''received empty response from API''
          else ''received invalid JSON response from API'')"

text \<open>The number of attempts a loop with budget \<open>m\<close> makes on the replies \<open>rs\<close>.\<close>

definition attempts_made :: "(reply \<Rightarrow> bool) \<Rightarrow> nat \<Rightarrow> reply list \<Rightarrow> nat" where
  "attempts_made transient m rs = min m (Suc (length (takeWhile transient rs)))"



definition E_down :: env where
  "E_down = E0\<lparr>net := (\<lambda>n.
      if n = 2 \<or> n = 4 then Answered \<lparr>StatusCode = 502, Status = ''502 Bad Gateway'', Body = ''overloaded''\<rparr>
      else Answered \<lparr>StatusCode = 200, Status = ''200 OK'', Body = ''''\<rparr>)\<rparr>"

definition c0 :: Client where
  "c0 = \<lparr>APIKey = ''key''\<rparr>"

text \<open>The values the flags have when none is passed, and a server that answers every OCR
  request with a document.\<close>

definition defaultFlags :: flags where
  "defaultFlags = \<lparr>apiKey = '''', jsonOutputFile = '''', includeImageBase64 = False,
                    markdownDir = ''markdown_output'', markdownFile = '''', includeImages = False,
                    includePageBreaks = True, titleFromFilename = True, singleFile = False\<rparr>"

section \<open>The classification of a document reference\<close>




text \<open>The OCR requests of an event log all carry the document type \<open>T\<close>, each with one source.\<close>

definition ocr_typed :: "string \<Rightarrow> event list \<Rightarrow> bool" where
  "ocr_typed T w =
     list_all (\<lambda>rq. case req_body rq of
                      JSONBody b \<Rightarrow> document b = [''type'' \<mapsto> T, T \<mapsto> the (document b T)]
                    | _ \<Rightarrow> True)
              (requests w)"








section \<open>The Markdown a conversion is expected to write\<close>

text \<open>
  The files written are the \<open>Wrote\<close> events of the log, in order. A conversion succeeds
  when the file system lets it: \<open>fs_ok\<close> says that no directory creation and no write
  fails.
\<close>

definition writes :: "event list \<Rightarrow> (string \<times> string) list" where
  "writes w = concat (map (\<lambda>e. case e of Wrote path content \<Rightarrow> [(path, content)] | _ \<Rightarrow> []) w)"

definition fs_ok :: "env \<Rightarrow> bool" where
  "fs_ok E = ((\<forall>path. os_MkdirAll E path = None) \<and> (\<forall>path content. os_WriteFile E path content = None))"

text \<open>
  The title of the single document: the metadata title if there is one, else the name of
  the JSON file without its extension if the title is to come from the file name, else
  \<open>Document\<close>.
\<close>

definition document_title :: "golib \<Rightarrow> flags \<Rightarrow> string \<Rightarrow> OCRResponse \<Rightarrow> string" where
  "document_title L G jsonFile ocrResponse =
     (if Title (Metadata ocrResponse) \<noteq> '''' then Title (Metadata ocrResponse)
      else if titleFromFilename G
        then TrimSuffix (filepath_Base L jsonFile) (filepath_Ext L (filepath_Base L jsonFile))
      else ''Document'')"

definition metadata_section :: "Metadata \<Rightarrow> string" where
  "metadata_section m =
     (if Author m = '''' \<and> CreationDate m = '''' then ''''
      else ''## Document Metadata\<newline>\<newline>''
           @ (if Author m \<noteq> '''' then ''**Author:** '' @ Author m @ ''\<newline>\<newline>'' else '''')
           @ (if CreationDate m \<noteq> ''''
              then ''**Creation Date:** '' @ CreationDate m @ ''\<newline>\<newline>'' else '''')
           @ (if sint (PageCount m) > 0
              then ''**Page Count:** '' @ fmt_d (sint (PageCount m)) @ ''\<newline>\<newline>'' else ''''))"

text \<open>
  The content of a page is its Markdown, with the image references replaced when images
  are included. In the single document a page is a block: a heading with the page's index
  plus one, the content and an empty line. Blocks follow one another in the order of the
  list, with the separator between two neighbours and none after the last.
\<close>

definition page_content :: "golib \<Rightarrow> flags \<Rightarrow> Page \<Rightarrow> string" where
  "page_content L G page =
     (if includeImages G then replaceImageReferences L G (Markdown page) (pageImages page)
      else Markdown page)"

definition page_block :: "golib \<Rightarrow> flags \<Rightarrow> Page \<Rightarrow> string" where
  "page_block L G page =
     ''## Page '' @ fmt_d (sint (Index page + 1)) @ ''\<newline>\<newline>'' @ page_content L G page
       @ ''\<newline>\<newline>''"

definition page_break :: "flags \<Rightarrow> string" where
  "page_break G = (if includePageBreaks G then ''\<newline>\<newline>---\<newline>\<newline>'' else '''')"

fun separated :: "string \<Rightarrow> string list \<Rightarrow> string" where
  "separated sep [] = ''''"
| "separated sep [b] = b"
| "separated sep (b # b' # bs) = b @ sep @ separated sep (b' # bs)"

definition single_document :: "golib \<Rightarrow> flags \<Rightarrow> string \<Rightarrow> OCRResponse \<Rightarrow> string" where
  "single_document L G jsonFile ocrResponse =
     ''# '' @ document_title L G jsonFile ocrResponse @ ''\<newline>\<newline>''
       @ metadata_section (Metadata ocrResponse)
       @ separated (page_break G) (map (page_block L G) (Pages ocrResponse))"

definition single_path :: "golib \<Rightarrow> flags \<Rightarrow> string" where
  "single_path L G =
     filepath_Join L (markdownDir G) (if markdownFile G \<noteq> '''' then markdownFile G else ''document.md'')"

definition page_file :: "golib \<Rightarrow> flags \<Rightarrow> Page \<Rightarrow> string \<times> string" where
  "page_file L G page =
     (filepath_Join L (markdownDir G) (fmt_d (sint (Index page)) @ ''.md''), Markdown page)"

text \<open>Two pages listed against their indices, and a decoder that yields them.\<close>

definition page :: "int \<Rightarrow> string \<Rightarrow> Page" where
  "page i md = \<lparr>Index = word_of_int i, Markdown = md, Image = '''', Images = [],
                Dimensions = \<lparr>DPI = 0, Height = 0, Width = 0\<rparr>\<rparr>"

definition two_pages :: OCRResponse where
  "two_pages = \<lparr>Pages = [page 1 ''second'', page 0 ''first''],
                 Metadata = \<lparr>Title = '''', Author = '''', CreationDate = '''', PageCount = 0\<rparr>\<rparr>"

definition L_two :: golib where
  "L_two = L0\<lparr>json_Unmarshal_OCR := (\<lambda>b. Inr two_pages)\<rparr>"

text \<open>A response with metadata and its pages in order, and a decoder that yields it.\<close>

definition report :: OCRResponse where
  "report = \<lparr>Pages = [page 0 ''alpha'', page 1 ''beta''],
              Metadata = \<lparr>Title = ''Report'', Author = ''Ann'', CreationDate = '''', PageCount = 2\<rparr>\<rparr>"

definition L_report :: golib where
  "L_report = L0\<lparr>json_Unmarshal_OCR := (\<lambda>b. Inr report)\<rparr>"

section \<open>Documents with image references\<close>

text \<open>
  The reference that the OCR service puts where an image stood is \<open>![id](id)\<close>. A document
  is a leading text followed by references, each with the text after it. \<open>has_opener\<close>
  finds the two bytes \<open>![\<close>, with which every reference starts, in a string: an
  identifier is clean when it holds neither these nor \<open>]\<close>.
\<close>

definition placeholder :: "string \<Rightarrow> string" where
  "placeholder i = ''!['' @ i @ '']('' @ i @ '')''"

fun has_opener :: "string \<Rightarrow> bool" where
  "has_opener (c # d # s) = ((c = CHR ''!'' \<and> d = CHR ''['') \<or> has_opener (d # s))"
| "has_opener s = False"

definition clean_id :: "string \<Rightarrow> bool" where
  "clean_id i = (CHR '']'' \<notin> set i \<and> \<not> has_opener i)"

definition render :: "string \<Rightarrow> (string \<times> string) list \<Rightarrow> string" where
  "render t0 items = t0 @ concat (map (\<lambda>(i, t). placeholder i @ t) items)"

text \<open>
  What an image list knows about an identifier: the data URI of the last image that has
  this identifier and a payload. A payload that starts with \<open>data:\<close> is a URI already.
\<close>

definition data_uri :: "string \<Rightarrow> string" where
  "data_uri payload = (if prefix ''data:'' payload then payload else ''data:image/jpeg;base64,'' @ payload)"

definition known_image :: "OCRResponse_Image list \<Rightarrow> string \<Rightarrow> string option" where
  "known_image images i =
     (case filter (\<lambda>img. ID img = i \<and> ImageBase64 img \<noteq> '''') images of
        [] \<Rightarrow> None
      | img # imgs \<Rightarrow> Some (data_uri (ImageBase64 (last (img # imgs)))))"

definition inlined :: "OCRResponse_Image list \<Rightarrow> string \<Rightarrow> string" where
  "inlined images i =
     (case known_image images i of
        None \<Rightarrow> placeholder i
      | Some uri \<Rightarrow> ''!['' @ i @ '']('' @ uri @ '')'')"

definition clean_image :: "OCRResponse_Image \<Rightarrow> bool" where
  "clean_image img =
     (ImageBase64 img = '''' \<or>
      (clean_id (ID img) \<and> CHR ''$'' \<notin> set (ID img) \<and> CHR ''$'' \<notin> set (ImageBase64 img)
       \<and> \<not> has_opener (ImageBase64 img)))"

text \<open>
  A text is plain for a list of images when it holds no reference to an image of the list
  that has a payload: what is to be inlined is then in the references of the document, not
  in its texts.
\<close>

definition plain_text :: "OCRResponse_Image list \<Rightarrow> string \<Rightarrow> bool" where
  "plain_text images t =
     list_all (\<lambda>img. ImageBase64 img = '''' \<or> \<not> sublist (placeholder (ID img)) t) images"

text \<open>
  While the images are gone through, some references are inlined already: an item then
  carries the URI that stands in the place of the second identifier.
\<close>

definition reference :: "string \<Rightarrow> string option \<Rightarrow> string" where
  "reference i uri = ''!['' @ i @ '']('' @ (case uri of None \<Rightarrow> i | Some u \<Rightarrow> u) @ '')''"

definition render_partial :: "string \<Rightarrow> (string \<times> string option \<times> string) list \<Rightarrow> string" where
  "render_partial t0 items = t0 @ concat (map (\<lambda>(i, uri, t). reference i uri @ t) items)"

definition inline_one :: "string \<Rightarrow> string \<Rightarrow> string \<times> string option \<times> string
    \<Rightarrow> string \<times> string option \<times> string" where
  "inline_one a u = (\<lambda>(i, uri, t). if i = a \<and> uri = None then (i, Some u, t) else (i, uri, t))"

definition clean_item :: "string \<times> string option \<times> string \<Rightarrow> bool" where
  "clean_item = (\<lambda>(i, uri, t). clean_id i
                   \<and> (case uri of None \<Rightarrow> True | Some u \<Rightarrow> \<not> has_opener u))"

definition pending :: "string \<Rightarrow> string \<times> string option \<times> string \<Rightarrow> bool" where
  "pending a = (\<lambda>(i, uri, t). i = a \<longrightarrow> uri = None)"

text \<open>A page with three references and the images of its response, one without payload.\<close>

definition figure_items :: "(string \<times> string) list" where
  "figure_items = [(''img-0.jpeg'', '' and ''), (''img-1.jpeg'', '', then ''), (''chart'', ''!'')]"

definition figure_images :: "OCRResponse_Image list" where
  "figure_images = [\<lparr>ID = ''img-0.jpeg'', ImageBase64 = ''AAAA''\<rparr>,
                    \<lparr>ID = ''img-1.jpeg'', ImageBase64 = ''''\<rparr>,
                    \<lparr>ID = ''img-9.jpeg'', ImageBase64 = ''data:image/png;base64,BBBB''\<rparr>]"

section \<open>Properties of the API client\<close>

lemma decimal_digit: "n < 10 \<Longrightarrow> decimal n = [digit n]"
  by (simp add: decimal.simps)

lemma fmt_d_3: "fmt_d 3 = ''3''"
  by code_simp

lemma fmt_d_5: "fmt_d 5 = ''5''"
  by code_simp

text \<open>
  C1. A file whose size, as \<open>os.Stat\<close> reports it, exceeds \<open>MaxFileSize\<close>
  (52 * 1024 * 1024 bytes) makes \<open>UploadFile\<close> return an error with the event log as it
  was: no request is sent and the retry loop is not entered.
\<close>

theorem UploadFile_rejects_oversized:
  assumes "os_Stat E filePath = FileInfo sz" and "sz > 52 * 1024 * 1024"
  shows "UploadFile L E c filePath w =
           (Inl (''file is too large ('' @ fmt_2f_MB L sz @ '' MB). Maximum allowed size is ''
                  @ fmt_2f_MB L MaxFileSize @ '' MB''), w)
         \<and> requests (snd (UploadFile L E c filePath w)) = requests w"
  using assms by (simp add: UploadFile_def MaxFileSize_def)

theorem UploadFile_rejects_oversized_witness:
  "os_Stat E0 ''big.pdf'' = FileInfo 62914560 \<and> (62914560 :: int) > 52 * 1024 * 1024
   \<and> UploadFile L0 E0 \<lparr>APIKey = ''key''\<rparr> ''big.pdf'' [] =
       (Inl ''file is too large (60.00 MB). Maximum allowed size is 52.00 MB'', [])
   \<and> requests (snd (UploadFile L0 E0 \<lparr>APIKey = ''key''\<rparr> ''big.pdf'' [])) = []"
proof -
  have st: "os_Stat E0 ''big.pdf'' = FileInfo 62914560"
    by (simp add: E0_def)
  have big: "(62914560 :: int) > 52 * 1024 * 1024"
    by simp
  have sixty: "fmt_d 60 = ''60''" and fifty: "fmt_d 52 = ''52''"
    by code_simp+
  have mb: "fmt_2f_MB L0 62914560 = ''60.00''" "fmt_2f_MB L0 MaxFileSize = ''52.00''"
    by (simp_all add: L0_def MaxFileSize_def sixty fifty)
  from UploadFile_rejects_oversized [OF st big, of L0 "\<lparr>APIKey = ''key''\<rparr>" "[]"] st big
  show ?thesis
    by (simp add: mb requests_def)
qed

text \<open>
  C9. For a document type other than \<open>document_url\<close> and \<open>image_url\<close>,
  \<open>ProcessOCR\<close> returns the error \<open>unsupported document type\<close> with the event log as it
  was: no request is sent and the retry loop is not entered.
\<close>

theorem ProcessOCR_unsupported_type:
  assumes "docType \<noteq> ''document_url''" and "docType \<noteq> ''image_url''"
  shows "ProcessOCR L E c docType docSource inc w =
           (Inl (''unsupported document type: '' @ docType), w)
         \<and> requests (snd (ProcessOCR L E c docType docSource inc w)) = requests w"
  using assms by (simp add: ProcessOCR_def)

theorem ProcessOCR_unsupported_type_witness:
  "ProcessOCR L0 E0 \<lparr>APIKey = ''key''\<rparr> ''pdf'' ''https://example.com/a.pdf'' False [] =
     (Inl ''unsupported document type: pdf'', [])
   \<and> requests (snd (ProcessOCR L0 E0 \<lparr>APIKey = ''key''\<rparr> ''pdf'' ''https://example.com/a.pdf'' False []))
       = []"
  using ProcessOCR_unsupported_type [of "''pdf''" L0 E0 "\<lparr>APIKey = ''key''\<rparr>"
      "''https://example.com/a.pdf''" False "[]"]
  by (simp add: requests_def)

subsection \<open>The retry loops\<close>

lemmas reply_kinds = server_error_def rate_limited_def empty_body_def malformed_upload_reply_def
  malformed_ocr_reply_def client_error_def transient_upload_def transient_ocr_def

lemma requests_append [simp]: "requests (w @ v) = requests w @ requests v"
  by (simp add: requests_def)

lemma requests_simps [simp]:
  "requests [] = []"
  "requests (Sent rq # w) = rq # requests w"
  "requests (Slept d # w) = requests w"
  "requests (Printed s # w) = requests w"
  "requests (MadeDir p # w) = requests w"
  "requests (Wrote p x # w) = requests w"
  "requests (CreatedTemp p # w) = requests w"
  "requests (Removed p # w) = requests w"
  by (simp_all add: requests_def)

lemma uploadAttempt_Continue: "is_Continue (uploadAttempt L r) \<longleftrightarrow> transient_upload L r"
  by (auto simp: uploadAttempt_def reply_kinds Let_def split: reply.splits sum.splits)

lemma ocrAttempt_Continue: "is_Continue (ocrAttempt L a r) \<longleftrightarrow> transient_ocr L r"
  by (auto simp: ocrAttempt_def reply_kinds Let_def split: reply.splits sum.splits)

lemma ocrAttempt_lastErr: "lastErr_of (ocrAttempt L a r) = lastErr_of (ocrAttempt L a' r)"
  by (auto simp: ocrAttempt_def Let_def split: reply.splits)



lemma upt_shift: "[n ..< Suc (n + b)] = n # [Suc n ..< Suc (n + b)]"
  by (simp add: upt_conv_Cons)

text \<open>
  The requests a loop sends: one per attempt, and an attempt follows another exactly when
  the reply was transient and the budget is not used up.
\<close>

lemma uploadLoop_requests:
  "requests (snd (uploadLoop L E rq m a le w)) =
     requests w @ replicate (attempts_made (transient_upload L) (Suc m - a)
        (map (net E) [length (requests w) ..< length (requests w) + (Suc m - a)])) rq"
proof (induction "Suc m - a" arbitrary: a le w)
  case 0
  then have "\<not> a \<le> m" by simp
  then show ?case using 0 by (simp add: uploadLoop.simps [of L E rq m a] attempts_made_def)
next
  case (Suc b)
  then have am: "a \<le> m" and b: "b = Suc m - (a + 1)" by simp_all
  let ?n = "length (requests w)"
  show ?case
  proof (cases "uploadAttempt L (net E ?n)")
    case (Continue e d)
    then have tr: "transient_upload L (net E ?n)"
      using uploadAttempt_Continue [of L "net E ?n"] by simp
    have "requests (snd (uploadLoop L E rq m a le w)) =
          requests (snd (uploadLoop L E rq m (a + 1) (Some e) (w @ [Sent rq, Slept d])))"
      using am Continue by (simp add: uploadLoop.simps [of L E rq m a] send_def)
    also have "\<dots> = requests (w @ [Sent rq, Slept d]) @ replicate (attempts_made (transient_upload L) b
           (map (net E) [Suc ?n ..< Suc ?n + b])) rq"
      using Suc.hyps(1) [OF b, of "Some e" "w @ [Sent rq, Slept d]"] b by simp
    finally show ?thesis
      using tr Suc.hyps(2) [symmetric]
      by (simp add: upt_shift attempts_made_def del: upt_Suc)
  next
    case (Return res)
    then have tr: "\<not> transient_upload L (net E ?n)"
      using uploadAttempt_Continue [of L "net E ?n"] by simp
    have "requests (snd (uploadLoop L E rq m a le w)) = requests w @ [rq]"
      using am Return by (simp add: uploadLoop.simps [of L E rq m a] send_def)
    then show ?thesis
      using tr Suc.hyps(2) [symmetric]
      by (simp add: upt_shift attempts_made_def del: upt_Suc)
  qed
qed

lemma ocrLoop_requests:
  "requests (snd (ocrLoop L E rq m a le w)) =
     requests w @ replicate (attempts_made (transient_ocr L) (Suc m - a)
        (map (net E) [length (requests w) ..< length (requests w) + (Suc m - a)])) rq"
proof (induction "Suc m - a" arbitrary: a le w)
  case 0
  then have "\<not> a \<le> m" by simp
  then show ?case using 0 by (simp add: ocrLoop.simps [of L E rq m a] attempts_made_def)
next
  case (Suc b)
  then have am: "a \<le> m" and b: "b = Suc m - (a + 1)" by simp_all
  let ?n = "length (requests w)"
  show ?case
  proof (cases "ocrAttempt L a (net E ?n)")
    case (Continue e d)
    then have tr: "transient_ocr L (net E ?n)"
      using ocrAttempt_Continue [of L a "net E ?n"] by simp
    have "requests (snd (ocrLoop L E rq m a le w)) =
          requests (snd (ocrLoop L E rq m (a + 1) (Some e) (w @ [Sent rq, Slept d])))"
      using am Continue by (simp add: ocrLoop.simps [of L E rq m a] send_def)
    also have "\<dots> = requests (w @ [Sent rq, Slept d]) @ replicate (attempts_made (transient_ocr L) b
           (map (net E) [Suc ?n ..< Suc ?n + b])) rq"
      using Suc.hyps(1) [OF b, of "Some e" "w @ [Sent rq, Slept d]"] b by simp
    finally show ?thesis
      using tr Suc.hyps(2) [symmetric]
      by (simp add: upt_shift attempts_made_def del: upt_Suc)
  next
    case (Return res)
    then have tr: "\<not> transient_ocr L (net E ?n)"
      using ocrAttempt_Continue [of L a "net E ?n"] by simp
    have "requests (snd (ocrLoop L E rq m a le w)) = requests w @ [rq]"
      using am Return by (simp add: ocrLoop.simps [of L E rq m a] send_def)
    then show ?thesis
      using tr Suc.hyps(2) [symmetric]
      by (simp add: upt_shift attempts_made_def del: upt_Suc)
  qed
qed



text \<open>
  When every reply within the budget is transient, the loop ends with the error recorded
  by the last attempt (or the one it started with, if there was no attempt).
\<close>

lemma uploadLoop_exhausted:
  assumes "\<forall>i<b. transient_upload L (net E (length (requests w) + i))"
    and "b = Suc m - a"
  shows "fst (uploadLoop L E rq m a le w) =
           Inl (''failed to upload file after '' @ fmt_d (int m) @ '' attempts: '' @
                fmt_v (if b = 0 then le
                       else Some (lastErr_of (uploadAttempt L (net E (length (requests w) + b - 1))))))"
  using assms
proof (induction b arbitrary: a le w)
  case 0
  then show ?case
    by (simp add: uploadLoop.simps [of L E rq m a])
next
  case (Suc b)
  let ?n = "length (requests w)"
  from Suc.prems(1) have "transient_upload L (net E (?n + 0))"
    by blast
  then obtain e d where c: "uploadAttempt L (net E ?n) = Continue e d"
    using uploadAttempt_Continue [of L "net E ?n"]
    by (cases "uploadAttempt L (net E ?n)") simp_all
  let ?w = "w @ [Sent rq, Slept d]"
  have "\<forall>i<b. transient_upload L (net E (length (requests ?w) + i))"
    using Suc.prems(1) by (auto dest: spec [of _ "Suc i" for i])
  moreover have "b = Suc m - (a + 1)"
    using Suc.prems(2) by simp
  ultimately have "fst (uploadLoop L E rq m (a + 1) (Some e) ?w) =
           Inl (''failed to upload file after '' @ fmt_d (int m) @ '' attempts: '' @
                fmt_v (if b = 0 then Some e
                       else Some (lastErr_of (uploadAttempt L (net E (length (requests ?w) + b - 1))))))"
    by (rule Suc.IH)
  moreover have "a \<le> m"
    using Suc.prems(2) by simp
  ultimately show ?case
    using c by (cases b) (simp_all add: uploadLoop.simps [of L E rq m a] send_def)
qed

lemma ocrLoop_exhausted:
  assumes "\<forall>i<b. transient_ocr L (net E (length (requests w) + i))"
    and "b = Suc m - a"
  shows "fst (ocrLoop L E rq m a le w) =
           Inl (''failed after '' @ fmt_d (int m) @ '' attempts. Last error: '' @
                fmt_v (if b = 0 then le
                       else Some (lastErr_of (ocrAttempt L m (net E (length (requests w) + b - 1))))))"
  using assms
proof (induction b arbitrary: a le w)
  case 0
  then show ?case
    by (simp add: ocrLoop.simps [of L E rq m a])
next
  case (Suc b)
  let ?n = "length (requests w)"
  from Suc.prems(1) have "transient_ocr L (net E (?n + 0))"
    by blast
  then obtain e d where c: "ocrAttempt L a (net E ?n) = Continue e d"
    using ocrAttempt_Continue [of L a "net E ?n"]
    by (cases "ocrAttempt L a (net E ?n)") simp_all
  then have e: "e = lastErr_of (ocrAttempt L m (net E ?n))"
    using ocrAttempt_lastErr [of L a "net E ?n" m] by simp
  let ?w = "w @ [Sent rq, Slept d]"
  have "\<forall>i<b. transient_ocr L (net E (length (requests ?w) + i))"
    using Suc.prems(1) by (auto dest: spec [of _ "Suc i" for i])
  moreover have "b = Suc m - (a + 1)"
    using Suc.prems(2) by simp
  ultimately have "fst (ocrLoop L E rq m (a + 1) (Some e) ?w) =
           Inl (''failed after '' @ fmt_d (int m) @ '' attempts. Last error: '' @
                fmt_v (if b = 0 then Some e
                       else Some (lastErr_of (ocrAttempt L m (net E (length (requests ?w) + b - 1))))))"
    by (rule Suc.IH)
  moreover have "a \<le> m"
    using Suc.prems(2) by simp
  ultimately show ?case
    using c e by (cases b) (simp_all add: ocrLoop.simps [of L E rq m a] send_def)
qed

lemma UploadFile_loop:
  "os_Stat E filePath = FileInfo sz \<Longrightarrow> sz \<le> MaxFileSize \<Longrightarrow>
   UploadFile L E c filePath w = uploadLoop L E (uploadRequest c filePath) 3 1 None w"
  by (simp add: UploadFile_def)

lemma ProcessOCR_loop:
  "docType = ''document_url'' \<or> docType = ''image_url'' \<Longrightarrow>
   ProcessOCR L E c docType docSource inc w =
     ocrLoop L E (ocrRequest c [''type'' \<mapsto> docType, docType \<mapsto> docSource] inc) 5 1 None w"
  by (auto simp: ProcessOCR_def)








lemma uploadAttempt_observed:
  "transient_upload L r \<Longrightarrow> uploadAttempt L r = Continue (observed_upload_error L r) 3"
  by (auto simp: uploadAttempt_def observed_upload_error_def reply_kinds Let_def
      split: reply.splits sum.splits)

lemma ocrAttempt_observed:
  "transient_ocr L r \<Longrightarrow> lastErr_of (ocrAttempt L a r) = observed_ocr_error r"
  by (auto simp: ocrAttempt_def observed_ocr_error_def reply_kinds Let_def split: reply.splits)

lemma attempts_all_transient:
  assumes "\<forall>i<b. P (net E (n + i))"
  shows "attempts_made P b (map (net E) [n ..< n + b]) = b"
proof -
  have "\<forall>x \<in> set (map (net E) [n ..< n + b]). P x"
  proof
    fix x
    assume "x \<in> set (map (net E) [n ..< n + b])"
    then obtain k where "n \<le> k" "k < n + b" "x = net E k"
      by auto
    then have "x = net E (n + (k - n))" "k - n < b"
      by simp_all
    with assms show "P x"
      by blast
  qed
  then have "takeWhile P (map (net E) [n ..< n + b]) = map (net E) [n ..< n + b]"
    by (simp only: takeWhile_eq_all_conv)
  then have "length (takeWhile P (map (net E) [n ..< n + b])) = length (map (net E) [n ..< n + b])"
    by (simp only:)
  then show ?thesis
    by (simp add: attempts_made_def)
qed

text \<open>
  C6. When every attempt within the budget (3 for \<open>UploadFile\<close>, 5 for \<open>ProcessOCR\<close>)
  meets a transient failure, the operation has sent its request that many times and
  returns an error whose message ends with what the final attempt observed: the transport
  error, the status and the text of the response, the empty body, the decoder's error or
  the missing file id.
\<close>

theorem retries_exhausted:
  assumes st: "os_Stat E filePath = FileInfo sz" "sz \<le> MaxFileSize"
    and dt: "docType = ''document_url'' \<or> docType = ''image_url''"
    and n: "n = length (requests w)"
  shows "((\<forall>i<3. transient_upload L (net E (n + i))) \<longrightarrow>
            fst (UploadFile L E c filePath w) =
              Inl (''failed to upload file after 3 attempts: ''
                    @ observed_upload_error L (net E (n + 2)))
            \<and> requests (snd (UploadFile L E c filePath w)) =
                requests w @ replicate 3 (uploadRequest c filePath))
       \<and> ((\<forall>i<5. transient_ocr L (net E (n + i))) \<longrightarrow>
            fst (ProcessOCR L E c docType docSource inc w) =
              Inl (''failed after 5 attempts. Last error: '' @ observed_ocr_error (net E (n + 4)))
            \<and> requests (snd (ProcessOCR L E c docType docSource inc w)) =
                requests w @ replicate 5
                  (ocrRequest c [''type'' \<mapsto> docType, docType \<mapsto> docSource] inc))"
proof (intro conjI impI)
  assume a: "\<forall>i<3. transient_upload L (net E (n + i))"
  from a [rule_format, of 2] have last: "uploadAttempt L (net E (n + 2)) =
      Continue (observed_upload_error L (net E (n + 2))) 3"
    by (simp add: uploadAttempt_observed)
  have "fst (uploadLoop L E (uploadRequest c filePath) 3 1 None w) =
           Inl (''failed to upload file after '' @ fmt_d (int 3) @ '' attempts: '' @
                fmt_v (if (3 :: nat) = 0 then None
                       else Some (lastErr_of (uploadAttempt L (net E (length (requests w) + 3 - 1))))))"
    by (rule uploadLoop_exhausted) (use a n in simp_all)
  then show "fst (UploadFile L E c filePath w) =
      Inl (''failed to upload file after 3 attempts: '' @ observed_upload_error L (net E (n + 2)))"
    using last by (simp add: UploadFile_loop [OF st] fmt_d_3 fmt_v_def n add.commute)
  show "requests (snd (UploadFile L E c filePath w)) =
      requests w @ replicate 3 (uploadRequest c filePath)"
    using uploadLoop_requests [of L E "uploadRequest c filePath" 3 1 None w]
      attempts_all_transient [of 3 "transient_upload L" E n] a
    by (simp add: UploadFile_loop [OF st] n)
next
  assume a: "\<forall>i<5. transient_ocr L (net E (n + i))"
  from a [rule_format, of 4] have last: "lastErr_of (ocrAttempt L 5 (net E (n + 4))) =
      observed_ocr_error (net E (n + 4))"
    by (simp add: ocrAttempt_observed)
  have "fst (ocrLoop L E (ocrRequest c [''type'' \<mapsto> docType, docType \<mapsto> docSource] inc) 5 1 None w) =
           Inl (''failed after '' @ fmt_d (int 5) @ '' attempts. Last error: '' @
                fmt_v (if (5 :: nat) = 0 then None
                       else Some (lastErr_of (ocrAttempt L 5 (net E (length (requests w) + 5 - 1))))))"
    by (rule ocrLoop_exhausted) (use a n in simp_all)
  then show "fst (ProcessOCR L E c docType docSource inc w) =
      Inl (''failed after 5 attempts. Last error: '' @ observed_ocr_error (net E (n + 4)))"
    using last by (simp add: ProcessOCR_loop [OF dt] fmt_d_5 fmt_v_def n add.commute)
  show "requests (snd (ProcessOCR L E c docType docSource inc w)) =
      requests w @ replicate 5 (ocrRequest c [''type'' \<mapsto> docType, docType \<mapsto> docSource] inc)"
    using ocrLoop_requests [of L E "ocrRequest c [''type'' \<mapsto> docType, docType \<mapsto> docSource] inc"
        5 1 None w]
      attempts_all_transient [of 5 "transient_ocr L" E n] a
    by (simp add: ProcessOCR_loop [OF dt] n)
qed

lemma E_down_replies:
  "net E_down 0 = Answered \<lparr>StatusCode = 200, Status = ''200 OK'', Body = ''''\<rparr>"
  "net E_down (Suc 0) = Answered \<lparr>StatusCode = 200, Status = ''200 OK'', Body = ''''\<rparr>"
  "net E_down 2 = Answered \<lparr>StatusCode = 502, Status = ''502 Bad Gateway'', Body = ''overloaded''\<rparr>"
  "net E_down (Suc (Suc 0)) = Answered \<lparr>StatusCode = 502, Status = ''502 Bad Gateway'', Body = ''overloaded''\<rparr>"
  "net E_down 3 = Answered \<lparr>StatusCode = 200, Status = ''200 OK'', Body = ''''\<rparr>"
  "net E_down 4 = Answered \<lparr>StatusCode = 502, Status = ''502 Bad Gateway'', Body = ''overloaded''\<rparr>"
  "os_Stat E_down ''a.pdf'' = FileInfo 2048"
  by (simp_all add: E_down_def E0_def)

lemma less_3_cases: "i < 3 \<Longrightarrow> i = 0 \<or> i = Suc 0 \<or> i = 2" for i :: nat
  by arith

lemma less_5_cases: "i < 5 \<Longrightarrow> i = 0 \<or> i = Suc 0 \<or> i = 2 \<or> i = 3 \<or> i = 4" for i :: nat
  by arith

lemma fmt_d_502: "fmt_d 502 = ''502''"
  by code_simp

theorem retries_exhausted_witness:
  "fst (UploadFile L0 E_down c0 ''a.pdf'' []) =
     Inl ''failed to upload file after 3 attempts: API returned error status: 502 - overloaded''
   \<and> requests (snd (UploadFile L0 E_down c0 ''a.pdf'' [])) = replicate 3 (uploadRequest c0 ''a.pdf'')
   \<and> fst (ProcessOCR L0 E_down c0 ''image_url'' ''https://example.com/a.png'' True []) =
     Inl ''failed after 5 attempts. Last error: API returned error status: 502 - overloaded''
   \<and> requests (snd (ProcessOCR L0 E_down c0 ''image_url'' ''https://example.com/a.png'' True [])) =
     replicate 5 (ocrRequest c0 [''type'' \<mapsto> ''image_url'',
                                 ''image_url'' \<mapsto> ''https://example.com/a.png''] True)"
proof -
  let ?gateway = "\<lparr>StatusCode = 502, Status = ''502 Bad Gateway'', Body = ''overloaded''\<rparr>"
  let ?empty = "\<lparr>StatusCode = 200, Status = ''200 OK'', Body = ''''\<rparr>"
  have sz: "(2048 :: int) \<le> MaxFileSize"
    by (simp add: MaxFileSize_def)
  have dt: "''image_url'' = ''document_url'' \<or> ''image_url'' = ''image_url''"
    by simp
  have n: "(0 :: nat) = length (requests [])"
    by simp
  note T = retries_exhausted [OF E_down_replies(7) sz dt n, of L0 c0 "''https://example.com/a.png''" True]
  have tu: "transient_upload L0 (Answered ?gateway)" "transient_upload L0 (Answered ?empty)"
    and tocr: "transient_ocr L0 (Answered ?gateway)" "transient_ocr L0 (Answered ?empty)"
    by (simp_all add: reply_kinds)
  have all3: "\<forall>i<3. transient_upload L0 (net E_down (0 + i))"
    using tu by (auto dest!: less_3_cases simp: E_down_replies)
  have all5: "\<forall>i<5. transient_ocr L0 (net E_down (0 + i))"
    using tocr by (auto dest!: less_5_cases simp: E_down_replies)
  have "observed_upload_error L0 (Answered ?gateway) = ''API returned error status: 502 - overloaded''"
    by (simp add: observed_upload_error_def reply_kinds fmt_d_502 L0_def)
  moreover have "observed_ocr_error (Answered ?gateway) = ''API returned error status: 502 - overloaded''"
    by (simp add: observed_ocr_error_def reply_kinds fmt_d_502)
  ultimately show ?thesis
    using T all3 all5 by (simp add: E_down_replies)
qed

section \<open>Properties of the commands\<close>

text \<open>
  C10. With a non-empty \<open>--output-file\<close>, the \<open>PreRun\<close> hooks of the \<open>convert\<close> and the
  \<open>markdown\<close> command set \<open>singleFile\<close>, whatever its value was, and the commands run with
  it set.
\<close>

theorem output_file_forces_single_file:
  assumes "markdownFile G \<noteq> ''''"
  shows "singleFile (convertCmd_PreRun G) \<and> singleFile (processMarkdownCmd_PreRun G)
       \<and> convertCmd L E G jsonFile w = convertJSONToMarkdown L E (G\<lparr>singleFile := True\<rparr>) jsonFile w
       \<and> processMarkdownCmd L E G fileOrURL w =
           processAndConvertToMarkdown L E
             (G\<lparr>includeImageBase64 := includeImages G \<or> includeImageBase64 G, singleFile := True\<rparr>)
             fileOrURL w"
  using assms
  by (cases "includeImages G")
     (simp_all add: convertCmd_PreRun_def processMarkdownCmd_PreRun_def convertCmd_def
        processMarkdownCmd_def)

theorem output_file_forces_single_file_witness:
  "markdownFile (defaultFlags\<lparr>markdownFile := ''paper.md''\<rparr>) \<noteq> ''''
   \<and> \<not> singleFile (defaultFlags\<lparr>markdownFile := ''paper.md''\<rparr>)
   \<and> singleFile (convertCmd_PreRun (defaultFlags\<lparr>markdownFile := ''paper.md''\<rparr>))
   \<and> singleFile (processMarkdownCmd_PreRun (defaultFlags\<lparr>markdownFile := ''paper.md''\<rparr>))"
proof -
  have ne: "markdownFile (defaultFlags\<lparr>markdownFile := ''paper.md''\<rparr>) \<noteq> ''''"
    by simp
  from output_file_forces_single_file [OF ne] ne show ?thesis
    by (simp add: defaultFlags_def)
qed

subsection \<open>The requests a command sends\<close>

lemma ocr_typed_append [simp]: "ocr_typed T (w @ v) \<longleftrightarrow> ocr_typed T w \<and> ocr_typed T v"
  by (simp add: ocr_typed_def)

lemma ocr_typed_simps [simp]:
  "ocr_typed T []"
  "ocr_typed T (Slept d # w) = ocr_typed T w"
  "ocr_typed T (Printed s # w) = ocr_typed T w"
  "ocr_typed T (MadeDir p # w) = ocr_typed T w"
  "ocr_typed T (Wrote p x # w) = ocr_typed T w"
  "ocr_typed T (CreatedTemp p # w) = ocr_typed T w"
  "ocr_typed T (Removed p # w) = ocr_typed T w"
  by (simp_all add: ocr_typed_def)


lemma ocr_typed_cong: "requests w' = requests w \<Longrightarrow> ocr_typed T w' = ocr_typed T w"
  by (simp add: ocr_typed_def)






lemma requests_map_Printed [simp]: "requests (map (\<lambda>k. Printed (f k)) ks) = []"
  by (induction ks) simp_all

lemma mkdirAll_requests [simp]: "requests (snd (mkdirAll E p w)) = requests w"
  by (simp add: mkdirAll_def split: option.splits)

lemma writeFile_requests [simp]: "requests (snd (writeFile E p x w)) = requests w"
  by (simp add: writeFile_def split: option.splits)

lemma handleOutput_requests [simp]: "requests (snd (handleOutput L E G data w)) = requests w"
  by (simp add: handleOutput_def mkdirAll_def writeFile_def Let_def split: sum.splits option.splits)

lemma writePages_requests [simp]: "requests (snd (writePages L E G pages w)) = requests w"
  by (induction pages arbitrary: w) (simp_all add: writeFile_def Let_def split: option.splits)

lemma singleFileBranch_requests [simp]:
  "requests (snd (singleFileBranch L E G jsonFile ocrResponse w)) = requests w"
  by (simp add: singleFileBranch_def mkdirAll_def writeFile_def Let_def split: option.splits)



lemma handleOutput_typed [simp]: "ocr_typed T (snd (handleOutput L E G data w)) = ocr_typed T w"
  by (rule ocr_typed_cong) simp


lemma getAPIKey_log: "getAPIKey E G w = (Returned key, G1, w1) \<Longrightarrow> w1 = w"
  by (auto simp: getAPIKey_def Let_def split: if_splits)







subsection \<open>The requests for a local file and of the markdown command\<close>













subsection \<open>The classification by the bytes of the extension\<close>











section \<open>Properties of the converter\<close>

lemma writes_append [simp]: "writes (w @ v) = writes w @ writes v"
  by (simp add: writes_def)

lemma writes_simps [simp]:
  "writes [] = []"
  "writes (Sent rq # w) = writes w"
  "writes (Slept d # w) = writes w"
  "writes (Printed s # w) = writes w"
  "writes (MadeDir p # w) = writes w"
  "writes (Wrote p x # w) = (p, x) # writes w"
  "writes (CreatedTemp p # w) = writes w"
  "writes (Removed p # w) = writes w"
  by (simp_all add: writes_def)

lemma mkdirAll_ok: "fs_ok E \<Longrightarrow> mkdirAll E p w = (None, w @ [MadeDir p])"
  by (simp add: fs_ok_def mkdirAll_def)

lemma writeFile_ok: "fs_ok E \<Longrightarrow> writeFile E p x w = (None, w @ [Wrote p x])"
  by (simp add: fs_ok_def writeFile_def)

text \<open>The loop over the pages appends the blocks, separated.\<close>

lemma singleFilePages_separated:
  "n = i + length pages \<Longrightarrow>
   singleFilePages L G n i pages combined =
     combined @ separated (page_break G) (map (page_block L G) pages)"
proof (induction pages arbitrary: i combined)
  case Nil
  then show ?case by simp
next
  case (Cons p pages)
  have last: "int i < int n - 1 \<longleftrightarrow> pages \<noteq> []"
    using Cons.prems by auto
  have n: "n = (i + 1) + length pages"
    using Cons.prems by simp
  show ?case
  proof (cases pages)
    case Nil
    then show ?thesis
      using last by (simp add: Let_def page_block_def page_content_def)
  next
    case (Cons q qs)
    then show ?thesis
      using last Cons.IH [OF n]
      by (simp add: Let_def page_block_def page_content_def page_break_def)
  qed
qed

lemma singleFileDocument_eq:
  "singleFileDocument L G jsonFile ocrResponse = single_document L G jsonFile ocrResponse"
  by (simp add: singleFileDocument_def single_document_def singleFilePages_separated Let_def
      document_title_def metadata_section_def)

lemma singleFileBranch_ok:
  "fs_ok E \<Longrightarrow>
   \<exists>log. singleFileBranch L E G jsonFile ocrResponse w = (Returned (), w @ log)
       \<and> writes log = [(single_path L G, single_document L G jsonFile ocrResponse)]"
  by (simp add: singleFileBranch_def mkdirAll_ok writeFile_ok Let_def singleFileDocument_eq
      single_path_def)

lemma writePages_ok:
  "fs_ok E \<Longrightarrow> \<not> includeImages G \<Longrightarrow>
   \<exists>log. writePages L E G pages w = (Returned (), w @ log)
       \<and> writes log = map (page_file L G) pages"
proof (induction pages arbitrary: w)
  case Nil
  then show ?case by simp
next
  case (Cons p pages)
  let ?path = "filepath_Join L (markdownDir G) (fmt_d (sint (Index p)) @ ''.md'')"
  let ?w = "w @ [Wrote ?path (Markdown p), Printed (''Created markdown file: '' @ ?path @ ''\<newline>'')]"
  from Cons.IH [OF Cons.prems, of ?w] obtain log where
    "writePages L E G pages ?w = (Returned (), ?w @ log)" and "writes log = map (page_file L G) pages"
    by blast
  then have "writePages L E G (p # pages) w =
      (Returned (), w @ ([Wrote ?path (Markdown p), Printed (''Created markdown file: '' @ ?path @ ''\<newline>'')] @ log))
    \<and> writes ([Wrote ?path (Markdown p), Printed (''Created markdown file: '' @ ?path @ ''\<newline>'')] @ log)
        = map (page_file L G) (p # pages)"
    using Cons.prems by (simp add: writeFile_ok Let_def page_file_def)
  then show ?case by blast
qed

text \<open>A conversion whose input is read and decoded, on a file system that lets it.\<close>

lemma convert_single_ok:
  assumes "os_ReadFile E jsonFile = Inr data" and "json_Unmarshal_OCR L data = Inr ocrResponse"
    and "fs_ok E" and "singleFile G"
  shows "fst (convertJSONToMarkdown L E G jsonFile w) = Returned ()
       \<and> writes (snd (convertJSONToMarkdown L E G jsonFile w)) =
           writes w @ [(single_path L G, single_document L G jsonFile ocrResponse)]"
proof -
  obtain log where "singleFileBranch L E G jsonFile ocrResponse (w @ [MadeDir (markdownDir G)]) =
      (Returned (), (w @ [MadeDir (markdownDir G)]) @ log)"
    and "writes log = [(single_path L G, single_document L G jsonFile ocrResponse)]"
    using singleFileBranch_ok [OF assms(3)] by blast
  then show ?thesis
    using assms by (simp add: convertJSONToMarkdown_def mkdirAll_ok)
qed

lemma convert_multi_ok:
  assumes "os_ReadFile E jsonFile = Inr data" and "json_Unmarshal_OCR L data = Inr ocrResponse"
    and "fs_ok E" and "\<not> singleFile G" and "\<not> includeImages G"
  shows "fst (convertJSONToMarkdown L E G jsonFile w) = Returned ()
       \<and> writes (snd (convertJSONToMarkdown L E G jsonFile w)) =
           writes w @ map (page_file L G) (Pages ocrResponse)"
proof -
  obtain log where "writePages L E G (Pages ocrResponse) (w @ [MadeDir (markdownDir G)]) =
      (Returned (), (w @ [MadeDir (markdownDir G)]) @ log)"
    and "writes log = map (page_file L G) (Pages ocrResponse)"
    using writePages_ok [OF assms(3) assms(5)] by blast
  then show ?thesis
    using assms by (simp add: convertJSONToMarkdown_def mkdirAll_ok)
qed

lemma E0_files: "os_ReadFile E0 jsonFile = Inr ''{}''" "fs_ok E0"
  by (simp_all add: E0_def fs_ok_def)

lemma L_two_decodes: "json_Unmarshal_OCR L_two data = Inr two_pages"
  by (simp add: L_two_def)

lemma L_report_decodes: "json_Unmarshal_OCR L_report data = Inr report"
  by (simp add: L_report_def)






text \<open>
  C3. Multi-file conversion, with image inlining off, of a payload that is read and
  decoded, on a file system that lets it, writes one file per page, in the order of the
  pages: the file is named by the page's index followed by \<open>.md\<close>, in the output
  directory, and its content is the page's Markdown.
\<close>

theorem multi_file_conversion:
  assumes "os_ReadFile E jsonFile = Inr data" and "json_Unmarshal_OCR L data = Inr ocrResponse"
    and "fs_ok E" and "\<not> singleFile G" and "\<not> includeImages G"
  shows "fst (convertJSONToMarkdown L E G jsonFile w) = Returned ()
       \<and> writes (snd (convertJSONToMarkdown L E G jsonFile w)) =
           writes w @
           map (\<lambda>page. (filepath_Join L (markdownDir G) (fmt_d (sint (Index page)) @ ''.md''),
                         Markdown page))
               (Pages ocrResponse)"
proof -
  have "page_file L G = (\<lambda>page. (filepath_Join L (markdownDir G) (fmt_d (sint (Index page)) @ ''.md''),
                         Markdown page))"
    by (rule ext) (simp add: page_file_def)
  then show ?thesis
    using convert_multi_ok [OF assms] by simp
qed

lemma two_pages_files:
  "map (\<lambda>page. (filepath_Join L_two (markdownDir defaultFlags) (fmt_d (sint (Index page)) @ ''.md''),
                 Markdown page)) (Pages two_pages) =
     [(''markdown_output/1.md'', ''second''), (''markdown_output/0.md'', ''first'')]"
  by code_simp

theorem multi_file_conversion_witness:
  "fst (convertJSONToMarkdown L_two E0 defaultFlags ''out.json'' []) = Returned ()
   \<and> writes (snd (convertJSONToMarkdown L_two E0 defaultFlags ''out.json'' [])) =
       [(''markdown_output/1.md'', ''second''), (''markdown_output/0.md'', ''first'')]"
proof -
  have multi: "\<not> singleFile defaultFlags" and plain: "\<not> includeImages defaultFlags"
    by (simp_all add: defaultFlags_def)
  from multi_file_conversion [where jsonFile = "''out.json''" and w = "[]", OF E0_files(1) L_two_decodes E0_files(2) multi plain]
  show ?thesis
    by (simp add: two_pages_files)
qed

text \<open>
  C8. The single document starts with the title line. The title is the metadata title
  when that is not empty; otherwise, when the title is to come from the file name, the
  base name of the JSON file with its extension cut off; otherwise \<open>Document\<close>.
\<close>

theorem single_file_title:
  assumes "os_ReadFile E jsonFile = Inr data" and "json_Unmarshal_OCR L data = Inr ocrResponse"
    and "fs_ok E" and "singleFile G"
    and "doc = snd (last (writes (snd (convertJSONToMarkdown L E G jsonFile w))))"
    and "T = Title (Metadata ocrResponse)"
  shows "(T \<noteq> '''' \<longrightarrow> prefix (''# '' @ T @ ''\<newline>\<newline>'') doc)
       \<and> (T = '''' \<and> titleFromFilename G \<longrightarrow>
            prefix (''# '' @ TrimSuffix (filepath_Base L jsonFile) (filepath_Ext L (filepath_Base L jsonFile))
                      @ ''\<newline>\<newline>'') doc)
       \<and> (T = '''' \<and> \<not> titleFromFilename G \<longrightarrow> prefix ''# Document\<newline>\<newline>'' doc)"
proof -
  have "doc = ''# '' @ document_title L G jsonFile ocrResponse @ ''\<newline>\<newline>''
               @ metadata_section (Metadata ocrResponse)
               @ separated (page_break G) (map (page_block L G) (Pages ocrResponse))"
    using convert_single_ok [OF assms(1-4), of w] assms(5) by (simp add: single_document_def)
  then show ?thesis
    using assms(6) by (simp add: document_title_def)
qed

lemma scan_title:
  "TrimSuffix (filepath_Base L_two ''results/scan.json'')
     (filepath_Ext L_two (filepath_Base L_two ''results/scan.json'')) = ''scan''"
  "Title (Metadata two_pages) = ''''"
  "Title (Metadata report) = ''Report''"
  by code_simp+

theorem single_file_title_witness:
  "prefix ''# scan\<newline>\<newline>''
     (snd (last (writes (snd (convertJSONToMarkdown L_two E0 (defaultFlags\<lparr>singleFile := True\<rparr>)
                               ''results/scan.json'' [])))))
   \<and> prefix ''# Document\<newline>\<newline>''
     (snd (last (writes (snd (convertJSONToMarkdown L_two E0
                               (defaultFlags\<lparr>singleFile := True, titleFromFilename := False\<rparr>)
                               ''results/scan.json'' [])))))
   \<and> prefix ''# Report\<newline>\<newline>''
     (snd (last (writes (snd (convertJSONToMarkdown L_report E0 (defaultFlags\<lparr>singleFile := True\<rparr>)
                               ''results/scan.json'' [])))))"
proof -
  have s1: "singleFile (defaultFlags\<lparr>singleFile := True\<rparr>)"
    and s2: "singleFile (defaultFlags\<lparr>singleFile := True, titleFromFilename := False\<rparr>)"
    and t1: "titleFromFilename (defaultFlags\<lparr>singleFile := True\<rparr>)"
    and t2: "\<not> titleFromFilename (defaultFlags\<lparr>singleFile := True, titleFromFilename := False\<rparr>)"
    by (simp_all add: defaultFlags_def)
  from single_file_title [where jsonFile = "''results/scan.json''" and w = "[]", OF E0_files(1) L_two_decodes E0_files(2) s1 refl refl]
  have "prefix ''# scan\<newline>\<newline>''
     (snd (last (writes (snd (convertJSONToMarkdown L_two E0 (defaultFlags\<lparr>singleFile := True\<rparr>)
                               ''results/scan.json'' [])))))"
    using t1 by (simp add: scan_title)
  moreover
  from single_file_title [where jsonFile = "''results/scan.json''" and w = "[]", OF E0_files(1) L_two_decodes E0_files(2) s2 refl refl]
  have "prefix ''# Document\<newline>\<newline>''
     (snd (last (writes (snd (convertJSONToMarkdown L_two E0
                               (defaultFlags\<lparr>singleFile := True, titleFromFilename := False\<rparr>)
                               ''results/scan.json'' [])))))"
    using t2 by (simp add: scan_title)
  moreover
  from single_file_title [where jsonFile = "''results/scan.json''" and w = "[]", OF E0_files(1) L_report_decodes E0_files(2) s1 refl refl]
  have "prefix ''# Report\<newline>\<newline>''
     (snd (last (writes (snd (convertJSONToMarkdown L_report E0 (defaultFlags\<lparr>singleFile := True\<rparr>)
                               ''results/scan.json'' [])))))"
    by (simp add: scan_title)
  ultimately show ?thesis
    by blast
qed

section \<open>Properties of image inlining\<close>

lemma has_opener_Cons: "has_opener (c # s) \<longleftrightarrow> (c = CHR ''!'' \<and> s \<noteq> [] \<and> hd s = CHR ''['') \<or> has_opener s"
  by (cases s) auto

lemma has_opener_append:
  "has_opener (a @ b) \<longleftrightarrow>
     has_opener a \<or> has_opener b \<or> (a \<noteq> [] \<and> last a = CHR ''!'' \<and> b \<noteq> [] \<and> hd b = CHR ''['')"
proof (induction a)
  case Nil
  then show ?case by simp
next
  case (Cons c a)
  show ?case
  proof (cases a)
    case Nil
    then show ?thesis by (cases b) auto
  next
    case (Cons d a')
    with Cons.IH show ?thesis by auto
  qed
qed

text \<open>
  A pattern \<open>![q\<close> that has no second \<open>![\<close> and does not end in \<open>!\<close> cannot begin in a
  text and run into a reference that follows it: a text that does not hold the pattern,
  before the end or before a reference, is copied.
\<close>

lemma skip_plain:
  assumes q: "\<not> has_opener (CHR ''['' # q)" "q \<noteq> []" "last q \<noteq> CHR ''!''"
    and t: "\<not> sublist (''!['' @ q) t" and r: "r = [] \<or> prefix ''!['' r"
  shows "ReplaceAllLiteral (''!['' @ q) repl (t @ r) = t @ ReplaceAllLiteral (''!['' @ q) repl r"
  using t
proof (induction t)
  case Nil
  then show ?case by simp
next
  case (Cons c t)
  let ?pat = "''!['' @ q"
  have "\<not> prefix ?pat ((c # t) @ r)"
  proof
    assume "prefix ?pat ((c # t) @ r)"
    then consider "prefix ?pat (c # t)" | us where "?pat = (c # t) @ us" "prefix us r"
      unfolding prefix_append by blast
    then show False
    proof cases
      case 1
      then show False
        using Cons.prems by (simp add: sublist_Cons_right)
    next
      case 2
      show False
      proof (cases us)
        case Nil
        then have "prefix ?pat (c # t)"
          using 2(1) by simp
        then show False
          using Cons.prems by (simp add: sublist_Cons_right)
      next
        case (Cons x us')
        then obtain r' where r': "r = CHR ''!'' # CHR ''['' # r'"
          using r 2(2) by (auto simp: prefix_def)
        have x: "x = CHR ''!''" and us': "prefix us' (CHR ''['' # r')"
          using 2(2) Cons r' by simp_all
        have tq: "CHR ''['' # q = t @ CHR ''!'' # us'"
          using 2(1) Cons x by simp
        show False
        proof (cases us')
          case Nil
          then have "last (CHR ''['' # q) = CHR ''!''"
            using tq by simp
          then show False
            using q(2,3) by simp
        next
          case (Cons y us'')
          then have y: "y = CHR ''[''"
            using us' by simp
          have "has_opener (t @ CHR ''!'' # CHR ''['' # us'')"
            by (simp add: has_opener_append)
          then show False
            using q(1) tq Cons y by simp
        qed
      qed
    qed
  qed
  then have "ReplaceAllLiteral ?pat repl (c # t @ r) = c # ReplaceAllLiteral ?pat repl (t @ r)"
    by auto
  moreover have "\<not> sublist ?pat t"
    using Cons.prems by (simp add: sublist_Cons_right)
  ultimately show ?case
    using Cons.IH by simp
qed

text \<open>What holds no \<open>![\<close> and does not end in \<open>!\<close> is copied, whatever follows.\<close>

lemma skip_no_opener:
  assumes "\<not> has_opener s" and "s = [] \<or> last s \<noteq> CHR ''!''"
  shows "ReplaceAllLiteral (''!['' @ q) repl (s @ r) = s @ ReplaceAllLiteral (''!['' @ q) repl r"
  using assms
proof (induction s)
  case Nil
  then show ?case by simp
next
  case (Cons c s)
  have "\<not> prefix (''!['' @ q) (c # s @ r)"
  proof (cases s)
    case Nil
    with Cons.prems show ?thesis by auto
  next
    case (Cons d s')
    with Cons.prems show ?thesis by auto
  qed
  then have "ReplaceAllLiteral (''!['' @ q) repl (c # s @ r) =
      c # ReplaceAllLiteral (''!['' @ q) repl (s @ r)"
    by auto
  moreover have "\<not> has_opener s" "s = [] \<or> last s \<noteq> CHR ''!''"
    using Cons.prems by (auto simp: has_opener_Cons)
  ultimately show ?case
    using Cons.IH by simp
qed

lemma bracket_prefix:
  "prefix (a @ CHR '']'' # u) (i @ CHR '']'' # v) \<Longrightarrow> CHR '']'' \<notin> set a \<Longrightarrow> CHR '']'' \<notin> set i \<Longrightarrow> a = i"
proof (induction a arbitrary: i)
  case Nil
  then show ?case by (cases i) auto
next
  case (Cons c a)
  then show ?case by (cases i) auto
qed

lemma replace_at_match:
  "pat \<noteq> [] \<Longrightarrow> ReplaceAllLiteral pat repl (pat @ s) = repl @ ReplaceAllLiteral pat repl s"
  by (cases pat) simp_all

lemma no_match_other:
  assumes "i \<noteq> a" and "CHR '']'' \<notin> set a" and "CHR '']'' \<notin> set i"
  shows "\<not> prefix (placeholder a) (reference i uri @ s)"
proof
  assume "prefix (placeholder a) (reference i uri @ s)"
  then have "prefix (a @ CHR '']'' # (''('' @ a @ '')''))
               (i @ CHR '']'' # (''('' @ (case uri of None \<Rightarrow> i | Some u \<Rightarrow> u) @ '')'' @ s))"
    by (simp add: placeholder_def reference_def)
  then have "a = i"
    using assms(2,3) by (rule bracket_prefix)
  with assms(1) show False by simp
qed

lemma reference_tail_clean:
  assumes "\<not> has_opener i" and "case uri of None \<Rightarrow> True | Some u \<Rightarrow> \<not> has_opener u"
  shows "\<not> has_opener (CHR ''['' # i @ '']('' @ (case uri of None \<Rightarrow> i | Some u \<Rightarrow> u) @ '')'')"
proof -
  let ?x = "case uri of None \<Rightarrow> i | Some u \<Rightarrow> u"
  have x: "\<not> has_opener ?x"
    using assms(1,2) by (cases uri) simp_all
  have 2: "\<not> has_opener (?x @ '')'')"
    using x by (simp add: has_opener_append)
  have 3: "\<not> has_opener (''('' @ ?x @ '')'')"
    using 2 by (simp add: has_opener_Cons)
  have 4: "\<not> has_opener ('']('' @ ?x @ '')'')"
    using 3 by (simp add: has_opener_Cons)
  have 5: "\<not> has_opener (i @ '']('' @ ?x @ '')'')"
    using assms(1) 4 by (simp add: has_opener_append)
  show ?thesis
    using 5 by (simp add: has_opener_Cons)
qed

lemma render_partial_Cons:
  "render_partial t0 ((i, uri, t) # xs) = t0 @ reference i uri @ render_partial t xs"
  by (simp add: render_partial_def)

text \<open>One pass of \<open>ReplaceAllString\<close> inlines the references of one identifier and no other.\<close>

lemma replace_one:
  assumes a: "clean_id a" and "\<not> sublist (placeholder a) t0"
    and "list_all clean_item xs" and "list_all (\<lambda>(i, uri, t). \<not> sublist (placeholder a) t) xs"
    and "list_all (pending a) xs"
  shows "ReplaceAllLiteral (placeholder a) (reference a (Some u)) (render_partial t0 xs) =
           render_partial t0 (map (inline_one a u) xs)"
  using assms(2-5)
proof (induction xs arbitrary: t0)
  let ?q = "a @ '']('' @ a @ '')''"
  have q: "\<not> has_opener (CHR ''['' # ?q)" "?q \<noteq> []" "last ?q \<noteq> CHR ''!''"
    using reference_tail_clean [of a None] a by (simp_all add: clean_id_def)
  have pat: "placeholder a = ''!['' @ ?q"
    by (simp add: placeholder_def)
  {
    case Nil
    have "ReplaceAllLiteral (''!['' @ ?q) (reference a (Some u)) (t0 @ []) =
          t0 @ ReplaceAllLiteral (''!['' @ ?q) (reference a (Some u)) []"
      using q Nil.prems(1) [unfolded pat] by (rule skip_plain) simp
    then show ?case
      by (simp add: render_partial_def placeholder_def)
  next
    case (Cons x xs)
    obtain i uri t where x: "x = (i, uri, t)"
      by (cases x)
    let ?pat = "placeholder a" and ?repl = "reference a (Some u)"
    let ?rest = "render_partial t xs"
    let ?r = "reference i uri @ ?rest"
    have ci: "clean_id i" "case uri of None \<Rightarrow> True | Some u \<Rightarrow> \<not> has_opener u"
      and t: "\<not> sublist ?pat t"
      and rest: "list_all clean_item xs" "list_all (\<lambda>(i, uri, t). \<not> sublist ?pat t) xs"
        "list_all (pending a) xs"
      and pend: "i = a \<longrightarrow> uri = None"
      using Cons.prems x by (simp_all add: clean_item_def pending_def)
    have ih: "ReplaceAllLiteral ?pat ?repl ?rest = render_partial t (map (inline_one a u) xs)"
      using t rest by (rule Cons.IH)
    have "prefix ''!['' ?r"
      by (simp add: reference_def)
    then have skip: "ReplaceAllLiteral ?pat ?repl (t0 @ ?r) = t0 @ ReplaceAllLiteral ?pat ?repl ?r"
      unfolding pat using q Cons.prems(1) [unfolded pat] by (intro skip_plain) simp_all
    show ?case
    proof (cases "i = a")
      case True
      then have uri: "uri = None"
        using pend by simp
      have "ReplaceAllLiteral ?pat ?repl ?r = ?repl @ ReplaceAllLiteral ?pat ?repl ?rest"
        using True uri replace_at_match [of ?pat ?repl ?rest]
        by (simp add: reference_def placeholder_def)
      then show ?thesis
        using skip ih True uri x by (simp add: render_partial_Cons inline_one_def)
    next
      case False
      let ?tail = "CHR ''['' # i @ '']('' @ (case uri of None \<Rightarrow> i | Some u \<Rightarrow> u) @ '')''"
      have r: "?r = CHR ''!'' # ?tail @ ?rest"
        by (simp add: reference_def)
      have "\<not> prefix ?pat ?r"
        using False a ci(1) by (intro no_match_other) (simp_all add: clean_id_def)
      then have "ReplaceAllLiteral ?pat ?repl ?r = CHR ''!'' # ReplaceAllLiteral ?pat ?repl (?tail @ ?rest)"
        unfolding r by simp
      also have "ReplaceAllLiteral ?pat ?repl (?tail @ ?rest) = ?tail @ ReplaceAllLiteral ?pat ?repl ?rest"
        unfolding pat using reference_tail_clean [of i uri] ci
        by (intro skip_no_opener) (simp_all add: clean_id_def)
      finally have "ReplaceAllLiteral ?pat ?repl ?r = reference i uri @ render_partial t (map (inline_one a u) xs)"
        using ih by (simp add: reference_def)
      then show ?thesis
        using skip False x by (simp add: render_partial_Cons inline_one_def)
    qed
  }
qed

lemma expand_plain: "CHR ''$'' \<notin> set template \<Longrightarrow> expand L template m = template"
  by (simp add: expand_def)

lemma inline_one_clean:
  "\<not> has_opener u \<Longrightarrow> list_all clean_item xs \<Longrightarrow> list_all clean_item (map (inline_one a u) xs)"
  by (induction xs) (auto simp: clean_item_def inline_one_def split: if_splits)

lemma inline_one_pending:
  "a \<noteq> b \<Longrightarrow> list_all (pending b) xs \<Longrightarrow> list_all (pending b) (map (inline_one a u) xs)"
  by (induction xs) (auto simp: pending_def inline_one_def split: if_splits)

lemma inline_one_texts:
  "list_all (\<lambda>(i, uri, t). P t) (map (inline_one a u) xs) = list_all (\<lambda>(i, uri, t). P t) xs"
  by (induction xs) (auto simp: inline_one_def split: if_splits)

text \<open>The loop over the map inlines the references of every key, whatever the order.\<close>

lemma replace_all:
  assumes "distinct (map fst kvs)"
    and "list_all (\<lambda>(a, u). clean_id a \<and> CHR ''$'' \<notin> set a \<and> CHR ''$'' \<notin> set u \<and> \<not> has_opener u) kvs"
    and "list_all (\<lambda>(a, u). \<not> sublist (placeholder a) t0) kvs"
    and "list_all clean_item xs"
    and "list_all (\<lambda>(a, u). list_all (\<lambda>(i, uri, t). \<not> sublist (placeholder a) t) xs
                            \<and> list_all (pending a) xs) kvs"
  shows "fold (\<lambda>(imageID, base64Data) content.
                 ReplaceAllString L (''!['' @ imageID @ '']('' @ imageID @ '')'') content
                   (''!['' @ imageID @ '']('' @ base64Data @ '')''))
              kvs (render_partial t0 xs) =
         render_partial t0
           (map (\<lambda>(i, uri, t). (i, (case uri of None \<Rightarrow> map_of kvs i | Some u \<Rightarrow> Some u), t)) xs)"
  using assms
proof (induction kvs arbitrary: xs)
  case Nil
  have "(\<lambda>(i, uri, t). (i, (case uri of None \<Rightarrow> map_of [] i | Some u \<Rightarrow> Some u), t)) =
        (\<lambda>x :: string \<times> string option \<times> string. x)"
    by (auto split: option.splits)
  then show ?case by simp
next
  case (Cons kv kvs)
  obtain a u where kv: "kv = (a, u)"
    by (cases kv)
  have a: "clean_id a" "CHR ''$'' \<notin> set a" "CHR ''$'' \<notin> set u" "\<not> has_opener u"
    and kvs: "list_all (\<lambda>(a, u). clean_id a \<and> CHR ''$'' \<notin> set a \<and> CHR ''$'' \<notin> set u \<and> \<not> has_opener u) kvs"
    and fresh: "a \<notin> fst ` set kvs" and dist: "distinct (map fst kvs)"
    and t0: "\<not> sublist (placeholder a) t0" "list_all (\<lambda>(a, u). \<not> sublist (placeholder a) t0) kvs"
    and ta: "list_all (\<lambda>(i, uri, t). \<not> sublist (placeholder a) t) xs"
    and pa: "list_all (pending a) xs"
    and pk: "list_all (\<lambda>(a, u). list_all (\<lambda>(i, uri, t). \<not> sublist (placeholder a) t) xs
                            \<and> list_all (pending a) xs) kvs"
    using Cons.prems kv by simp_all
  let ?xs = "map (inline_one a u) xs"
  have "expand L (''!['' @ a @ '']('' @ u @ '')'') (''!['' @ a @ '']('' @ a @ '')'') = ''!['' @ a @ '']('' @ u @ '')''"
    using a(2,3) by (intro expand_plain) simp
  then have one: "ReplaceAllString L (''!['' @ a @ '']('' @ a @ '')'') (render_partial t0 xs)
                   (''!['' @ a @ '']('' @ u @ '')'') = render_partial t0 ?xs"
    using replace_one [OF a(1) t0(1) Cons.prems(4) ta pa, of u]
    by (simp add: ReplaceAllString_def placeholder_def reference_def)
  have "list_all (\<lambda>(b, v). list_all (\<lambda>(i, uri, t). \<not> sublist (placeholder b) t) ?xs
                            \<and> list_all (pending b) ?xs) kvs"
    using pk fresh
  proof (induction kvs)
    case Nil
    then show ?case by simp
  next
    case (Cons bv kvs)
    then show ?case
      by (cases bv) (auto simp: inline_one_texts intro: inline_one_pending)
  qed
  from Cons.IH [OF dist kvs t0(2) inline_one_clean [OF a(4) Cons.prems(4)] this]
  have ih: "fold (\<lambda>(imageID, base64Data) content.
                 ReplaceAllString L (''!['' @ imageID @ '']('' @ imageID @ '')'') content
                   (''!['' @ imageID @ '']('' @ base64Data @ '')''))
              kvs (render_partial t0 ?xs) =
         render_partial t0
           (map (\<lambda>(i, uri, t). (i, (case uri of None \<Rightarrow> map_of kvs i | Some u \<Rightarrow> Some u), t)) ?xs)" .
  have mapeq: "map (\<lambda>(i, uri, t). (i, (case uri of None \<Rightarrow> map_of kvs i | Some u \<Rightarrow> Some u), t)) ?xs =
      map (\<lambda>(i, uri, t). (i, (case uri of None \<Rightarrow> map_of ((a, u) # kvs) i | Some u \<Rightarrow> Some u), t)) xs"
    by (induction xs) (auto simp: inline_one_def split: option.splits)
  have "fold (\<lambda>(imageID, base64Data) content.
                 ReplaceAllString L (''!['' @ imageID @ '']('' @ imageID @ '')'') content
                   (''!['' @ imageID @ '']('' @ base64Data @ '')''))
              ((a, u) # kvs) (render_partial t0 xs) =
        fold (\<lambda>(imageID, base64Data) content.
                 ReplaceAllString L (''!['' @ imageID @ '']('' @ imageID @ '')'') content
                   (''!['' @ imageID @ '']('' @ base64Data @ '')''))
              kvs (render_partial t0 ?xs)"
    using one by simp
  then show ?case
    unfolding kv ih mapeq .
qed

subsection \<open>The map of the images\<close>

lemma known_image_Nil [simp]: "known_image [] i = None"
  by (simp add: known_image_def)

lemma known_image_Cons:
  "known_image (img # imgs) i =
     (case known_image imgs i of
        Some u \<Rightarrow> Some u
      | None \<Rightarrow> if ID img = i \<and> ImageBase64 img \<noteq> '''' then Some (data_uri (ImageBase64 img)) else None)"
  by (cases "filter (\<lambda>img. ID img = i \<and> ImageBase64 img \<noteq> '''') imgs")
     (simp_all add: known_image_def)

lemma known_image_SomeD:
  "known_image images i = Some u \<Longrightarrow>
   \<exists>img \<in> set images. ID img = i \<and> ImageBase64 img \<noteq> '''' \<and> u = data_uri (ImageBase64 img)"
proof (induction images)
  case Nil
  then show ?case by simp
next
  case (Cons img images)
  then show ?case
    by (cases "known_image images i") (auto simp: known_image_Cons split: if_splits)
qed

lemma known_image_iff:
  "known_image images i \<noteq> None \<longleftrightarrow> (\<exists>img \<in> set images. ID img = i \<and> ImageBase64 img \<noteq> '''')"
proof -
  have "known_image images i \<noteq> None \<longleftrightarrow>
      filter (\<lambda>img. ID img = i \<and> ImageBase64 img \<noteq> '''') images \<noteq> []"
    by (simp add: known_image_def split: list.splits)
  then show ?thesis
    by (simp add: filter_empty_conv)
qed

lemma plain_text_iff:
  "plain_text images t \<longleftrightarrow> (\<forall>a. known_image images a \<noteq> None \<longrightarrow> \<not> sublist (placeholder a) t)"
  unfolding known_image_iff by (auto simp: plain_text_def list_all_iff)

lemma imageMap_fold:
  "map_of (fold (\<lambda>img imageMap.
             if ImageBase64 img \<noteq> '''' then
               (let imgData = ImageBase64 img;
                    imgData = (if \<not> HasPrefix imgData ''data:''
                               then ''data:image/jpeg;base64,'' @ imgData else imgData)
                in AList.update (ID img) imgData imageMap)
             else imageMap) images acc) i =
     (case known_image images i of Some u \<Rightarrow> Some u | None \<Rightarrow> map_of acc i)"
proof (induction images arbitrary: acc)
  case Nil
  then show ?case by simp
next
  case (Cons img images)
  show ?case
    by (cases "known_image images i")
       (simp_all add: Cons.IH known_image_Cons update_conv' HasPrefix_def data_uri_def Let_def)
qed

lemma imageMap_distinct_fold:
  "distinct (map fst acc) \<Longrightarrow>
   distinct (map fst (fold (\<lambda>img imageMap.
             if ImageBase64 img \<noteq> '''' then
               (let imgData = ImageBase64 img;
                    imgData = (if \<not> HasPrefix imgData ''data:''
                               then ''data:image/jpeg;base64,'' @ imgData else imgData)
                in AList.update (ID img) imgData imageMap)
             else imageMap) images acc))"
  by (induction images arbitrary: acc) (simp_all add: distinct_update Let_def)

lemma buildImageMap_lookup: "map_of (buildImageMap images) i = known_image images i"
  by (simp add: buildImageMap_def imageMap_fold split: option.splits)

lemma buildImageMap_distinct: "distinct (map fst (buildImageMap images))"
  by (simp add: buildImageMap_def imageMap_distinct_fold)

lemma buildImageMap_known:
  "(a, u) \<in> set (buildImageMap images) \<Longrightarrow> known_image images a = Some u"
  using buildImageMap_distinct [of images] buildImageMap_lookup [of images a] by simp

lemma data_uri_clean:
  "CHR ''$'' \<notin> set p \<Longrightarrow> CHR ''$'' \<notin> set (data_uri p)"
  "\<not> has_opener p \<Longrightarrow> \<not> has_opener (data_uri p)"
  by (simp_all add: data_uri_def has_opener_Cons)

lemma buildImageMap_clean:
  assumes "list_all clean_image images" and "(a, u) \<in> set (buildImageMap images)"
  shows "clean_id a \<and> CHR ''$'' \<notin> set a \<and> CHR ''$'' \<notin> set u \<and> \<not> has_opener u"
proof -
  have "known_image images a = Some u"
    using assms(2) by (rule buildImageMap_known)
  then obtain img where "img \<in> set images" "ID img = a" "ImageBase64 img \<noteq> ''''"
    "u = data_uri (ImageBase64 img)"
    using known_image_SomeD by blast
  moreover from this assms(1) have "clean_image img"
    by (simp add: list_all_iff)
  ultimately show ?thesis
    by (auto simp: clean_image_def data_uri_clean)
qed

lemma known_image_clean:
  assumes "list_all clean_image images" and "known_image images i \<noteq> None"
  shows "clean_id i"
proof -
  obtain img where "img \<in> set images" "ID img = i" "ImageBase64 img \<noteq> ''''"
    using assms(2) unfolding known_image_iff by blast
  then show ?thesis
    using assms(1) by (auto simp: list_all_iff clean_image_def)
qed

lemma render_as_partial:
  "render t0 items = render_partial t0 (map (\<lambda>(i, t). (i, None, t)) items)"
  by (simp add: render_def render_partial_def reference_def placeholder_def comp_def case_prod_unfold)

lemma render_inlined:
  "render_partial t0 (map (\<lambda>(i, uri, t). (i, (case uri of None \<Rightarrow> known_image images i | Some u \<Rightarrow> Some u), t))
                        (map (\<lambda>(i, t). (i, None, t)) items)) =
   t0 @ concat (map (\<lambda>(i, t). inlined images i @ t) items)"
proof -
  have "reference i (known_image images i) = inlined images i" for i
    by (simp add: reference_def inlined_def placeholder_def split: option.splits)
  then show ?thesis
    by (simp add: render_partial_def comp_def case_prod_unfold)
qed

text \<open>
  The references of a document whose texts are plain are inlined, those to images without
  payload and to no image at all are kept, and so are the texts.
\<close>

lemma inline_document:
  assumes "includeImages G"
    and "\<forall>m. mset (map_range L m) = mset m"
    and "list_all clean_image images"
    and "plain_text images t0" and "list_all (\<lambda>(i, t). clean_id i \<and> plain_text images t) items"
  shows "replaceImageReferences L G (render t0 items) images =
           t0 @ concat (map (\<lambda>(i, t). inlined images i @ t) items)"
proof (cases "images = []")
  case True
  then show ?thesis
    by (simp add: replaceImageReferences_def render_def inlined_def)
next
  case False
  let ?m = "buildImageMap images"
  let ?kvs = "map_range L ?m"
  let ?xs = "map (\<lambda>(i, t). (i, None :: string option, t)) items"
  have ms: "mset ?kvs = mset ?m"
    using assms(2) by simp
  then have set: "set ?kvs = set ?m"
    by (rule mset_eq_setD)
  have "mset (map fst ?kvs) = mset (map fst ?m)"
    using ms by (metis mset_map)
  then have dist: "distinct (map fst ?kvs)"
    using buildImageMap_distinct [of images] by (metis mset_eq_imp_distinct_iff)
  have lookup: "map_of ?kvs = map_of ?m"
    using dist buildImageMap_distinct [of images] set by (simp add: map_of_inject_set)
  have clean: "list_all (\<lambda>(a, u). clean_id a \<and> CHR ''$'' \<notin> set a \<and> CHR ''$'' \<notin> set u \<and> \<not> has_opener u) ?kvs"
    using buildImageMap_clean [OF assms(3)] set by (auto simp: list_all_iff)
  have known: "known_image images a \<noteq> None" if "(a, u) \<in> set ?kvs" for a u
    using that set buildImageMap_known [of a u images] by simp
  have t0: "list_all (\<lambda>(a, u). \<not> sublist (placeholder a) t0) ?kvs"
    using assms(4) known by (auto simp: list_all_iff plain_text_iff)
  have items: "list_all clean_item ?xs"
    using assms(5) by (induction items) (auto simp: clean_item_def)
  have texts: "\<not> sublist (placeholder a) t" if "(a, u) \<in> set ?kvs" and "(i, t) \<in> set items" for a u i t
    using assms(5) that(2) known [OF that(1)] by (auto simp: list_all_iff plain_text_iff)
  have pend: "list_all (\<lambda>(a, u). list_all (\<lambda>(i, uri, t). \<not> sublist (placeholder a) t) ?xs
                            \<and> list_all (pending a) ?xs) ?kvs"
    by (auto simp: list_all_iff pending_def dest: texts)
  have "replaceImageReferences L G (render t0 items) images =
        fold (\<lambda>(imageID, base64Data) content.
                 ReplaceAllString L (''!['' @ imageID @ '']('' @ imageID @ '')'') content
                   (''!['' @ imageID @ '']('' @ base64Data @ '')''))
              ?kvs (render_partial t0 ?xs)"
    using False assms(1) by (simp add: replaceImageReferences_def render_as_partial)
  also have "\<dots> = render_partial t0
           (map (\<lambda>(i, uri, t). (i, (case uri of None \<Rightarrow> map_of ?kvs i | Some u \<Rightarrow> Some u), t)) ?xs)"
    using dist clean t0 items pend by (rule replace_all)
  also have "\<dots> = t0 @ concat (map (\<lambda>(i, t). inlined images i @ t) items)"
    unfolding lookup buildImageMap_lookup by (rule render_inlined)
  finally show ?thesis .
qed

text \<open>
  Every content is a document of plain texts and references to images with a payload: the
  references found from left to right.
\<close>

lemma content_document:
  "\<exists>t0 items. content = render t0 items \<and> plain_text images t0
     \<and> list_all (\<lambda>(i, t). known_image images i \<noteq> None \<and> plain_text images t) items"
proof (induction content rule: length_induct)
  case (1 content)
  show ?case
  proof (cases "\<exists>a. known_image images a \<noteq> None \<and> prefix (placeholder a) content")
    case True
    then obtain a ss where a: "known_image images a \<noteq> None" and c: "content = placeholder a @ ss"
      by (auto simp: prefix_def)
    then have "length ss < length content"
      by (simp add: placeholder_def)
    with 1 obtain t items where d: "ss = render t items" "plain_text images t"
      "list_all (\<lambda>(i, t). known_image images i \<noteq> None \<and> plain_text images t) items"
      by blast
    have "content = render [] ((a, t) # items)"
      using c d(1) by (simp add: render_def)
    moreover have "plain_text images []"
      by (simp add: plain_text_iff placeholder_def)
    moreover have "list_all (\<lambda>(i, t). known_image images i \<noteq> None \<and> plain_text images t) ((a, t) # items)"
      using a d(2,3) by simp
    ultimately show ?thesis
      by blast
  next
    case False
    show ?thesis
    proof (cases content)
      case Nil
      have "[] = render [] []" "plain_text images []"
        by (simp_all add: render_def plain_text_iff placeholder_def)
      then show ?thesis
        unfolding Nil by (intro exI [of _ "[]"]) simp
    next
      case (Cons c cs)
      with 1 obtain t items where d: "cs = render t items" "plain_text images t"
        "list_all (\<lambda>(i, t). known_image images i \<noteq> None \<and> plain_text images t) items"
        by force
      have c: "content = render (c # t) items"
        using Cons d(1) by (simp add: render_def)
      have "\<not> sublist (placeholder a) (c # t)" if "known_image images a \<noteq> None" for a
      proof
        assume "sublist (placeholder a) (c # t)"
        then have "prefix (placeholder a) (c # t)"
          using d(2) that by (simp add: sublist_Cons_right plain_text_iff)
        then have "prefix (placeholder a) content"
          unfolding c render_def by (rule prefix_prefix)
        with False that show False
          by blast
      qed
      then have "plain_text images (c # t)"
        by (simp add: plain_text_iff)
      with c d(3) show ?thesis
        by blast
    qed
  qed
qed

text \<open>
  C4, as the code has it. With image inlining on, and for images whose payloads, where
  not empty, and identifiers hold no \<open>$\<close>, the identifiers neither \<open>]\<close> nor \<open>![\<close> and the
  payloads no \<open>![\<close>: every content is a document of references \<open>![id](id)\<close> to images with
  a payload and of texts between them that hold no such reference, and the result is that
  document with every reference replaced by \<open>![id](uri)\<close> and every text as it was. The
  URI is the payload of the last image with that identifier and a payload, behind
  \<open>data:image/jpeg;base64,\<close> unless it starts with \<open>data:\<close> already. A text may hold
  anything else, references to other identifiers or to images without payload included.
  The same holds when the document is read with more references, to any identifiers
  without \<open>]\<close> and \<open>![\<close>: a reference whose identifier is that of no image, or only of
  images with an empty payload, stays as it is. The order in which the map is ranged over
  does not matter.
\<close>

theorem image_references_inlined:
  assumes "includeImages G"
    and "\<forall>m. mset (map_range L m) = mset m"
    and "list_all clean_image images"
  shows "(\<exists>t items. content = render t items \<and> plain_text images t
            \<and> list_all (\<lambda>(i, t). known_image images i \<noteq> None \<and> plain_text images t) items
            \<and> replaceImageReferences L G content images =
                t @ concat (map (\<lambda>(i, t). inlined images i @ t) items))
       \<and> (plain_text images t0 \<and> list_all (\<lambda>(i, t). clean_id i \<and> plain_text images t) items \<longrightarrow>
            replaceImageReferences L G (render t0 items) images =
              t0 @ concat (map (\<lambda>(i, t). inlined images i @ t) items))"
proof (intro conjI impI)
  obtain t xs where d: "content = render t xs" "plain_text images t"
    "list_all (\<lambda>(i, t). known_image images i \<noteq> None \<and> plain_text images t) xs"
    using content_document [of content images] by blast
  have "list_all (\<lambda>(i, t). clean_id i \<and> plain_text images t) xs"
    using d(3) known_image_clean [OF assms(3)] by (auto simp: list_all_iff)
  with assms d(2) have "replaceImageReferences L G (render t xs) images =
      t @ concat (map (\<lambda>(i, t). inlined images i @ t) xs)"
    by (rule inline_document)
  with d show "\<exists>t items. content = render t items \<and> plain_text images t
            \<and> list_all (\<lambda>(i, t). known_image images i \<noteq> None \<and> plain_text images t) items
            \<and> replaceImageReferences L G content images =
                t @ concat (map (\<lambda>(i, t). inlined images i @ t) items)"
    by blast
next
  assume "plain_text images t0 \<and> list_all (\<lambda>(i, t). clean_id i \<and> plain_text images t) items"
  with assms show "replaceImageReferences L G (render t0 items) images =
              t0 @ concat (map (\<lambda>(i, t). inlined images i @ t) items)"
    by (intro inline_document) simp_all
qed

lemma figure_clean:
  "plain_text figure_images ''See ![alt](u.png): ''"
  "list_all (\<lambda>(i, t). clean_id i \<and> plain_text figure_images t) figure_items"
  "list_all clean_image figure_images"
  by code_simp+

lemma figure_text:
  "render ''See ![alt](u.png): '' figure_items =
     ''See ![alt](u.png): ![img-0.jpeg](img-0.jpeg) and ![img-1.jpeg](img-1.jpeg), then ![chart](chart)!''"
  "''See ![alt](u.png): '' @ concat (map (\<lambda>(i, t). inlined figure_images i @ t) figure_items) =
     ''See ![alt](u.png): ![img-0.jpeg](data:image/jpeg;base64,AAAA) and ![img-1.jpeg](img-1.jpeg), then ![chart](chart)!''"
  by code_simp+

theorem image_references_inlined_witness:
  "replaceImageReferences L0 (defaultFlags\<lparr>includeImages := True\<rparr>)
     ''See ![alt](u.png): ![img-0.jpeg](img-0.jpeg) and ![img-1.jpeg](img-1.jpeg), then ![chart](chart)!''
     figure_images =
   ''See ![alt](u.png): ![img-0.jpeg](data:image/jpeg;base64,AAAA) and ![img-1.jpeg](img-1.jpeg), then ![chart](chart)!''"
proof -
  have on: "includeImages (defaultFlags\<lparr>includeImages := True\<rparr>)"
    by simp
  have range: "\<forall>m. mset (map_range L0 m) = mset m"
    by (simp add: L0_def)
  from image_references_inlined [OF on range figure_clean(3), where content = "''''"
      and ?t0.0 = "''See ![alt](u.png): ''" and items = figure_items,
      THEN conjunct2, THEN mp, OF conjI [OF figure_clean(1,2)]]
  show ?thesis
    by (simp only: figure_text)
qed

text \<open>
  C4 as stated fails for an image that is in the list without payload: the reference with
  its identifier stays.
\<close>

theorem empty_payload_counterexample:
  "ID (figure_images ! 1) = ''img-1.jpeg''
   \<and> replaceImageReferences L0 (defaultFlags\<lparr>includeImages := True\<rparr>)
        ''![img-1.jpeg](img-1.jpeg)'' figure_images = ''![img-1.jpeg](img-1.jpeg)''"
  by code_simp

end
